theory Spec2Isabelle
  imports Complex_Main "HOL-Library.Word"
begin

section \<open>Data model\<close>

text \<open>
  The package \<^verbatim>\<open>dynamodb\<close> (file \<^verbatim>\<open>src/dynamodb/dynamodb.go\<close>) is a thin layer over the
  AWS SDK. The SDK itself is not part of the repository: its data types are modelled
  by the fields the package reads or writes, and its operations (the client's
  \<^verbatim>\<open>PutItem\<close>, \<^verbatim>\<open>BatchWriteItem\<close>, \<^verbatim>\<open>Query\<close>, \<^verbatim>\<open>UpdateItem\<close>, the expression builder's
  \<^verbatim>\<open>Build\<close>, \<^verbatim>\<open>json.Marshal\<close>) are parameters of the model.
\<close>

text \<open>A Go \<^verbatim>\<open>error\<close> value; \<^verbatim>\<open>nil\<close> is \<open>None\<close> of \<open>error option\<close>.\<close>

datatype error = Error string

text \<open>\<^verbatim>\<open>dynamodb.AttributeValue\<close>: the type-tagged value of one attribute.\<close>

datatype attribute_value =
    S string
  | N string
  | B string
  | BOOL bool
  | NULL
  | SS "string list"
  | NS "string list"
  | BS "string list"
  | L "attribute_value list"
  | M "(string \<times> attribute_value) list"

text \<open>\<^verbatim>\<open>map[string]*dynamodb.AttributeValue\<close>: one record, or one key.\<close>

type_synonym item = "string \<rightharpoonup> attribute_value"

record put_item_input =
  pi_Item :: item
  pi_TableName :: "string option"

record put_request =
  pr_Item :: item

record write_request =
  wr_PutRequest :: put_request

record batch_write_item_input =
  bw_RequestItems :: "string \<rightharpoonup> write_request list"

record query_input =
  q_ExpressionAttributeNames :: "string \<rightharpoonup> string"
  q_ExpressionAttributeValues :: "string \<rightharpoonup> attribute_value"
  q_KeyConditionExpression :: "string option"
  q_FilterExpression :: "string option"
  q_IndexName :: "string option"
  q_TableName :: "string option"
  q_ExclusiveStartKey :: "item option"

text \<open>
  \<^verbatim>\<open>dynamodb.QueryOutput\<close>: the fields the package reads. \<^verbatim>\<open>LastEvaluatedKey\<close> is a Go
  map; the code tests it against \<^verbatim>\<open>nil\<close>, so a nil map is \<open>None\<close> and an empty map
  that is not nil is \<open>Some Map.empty\<close>.
\<close>

record query_output =
  qo_Items :: "item list"
  qo_LastEvaluatedKey :: "item option"

record update_item_input =
  ui_ExpressionAttributeNames :: "string \<rightharpoonup> string"
  ui_ExpressionAttributeValues :: "string \<rightharpoonup> attribute_value"
  ui_Key :: item
  ui_TableName :: "string option"
  ui_UpdateExpression :: "string option"

subsection \<open>The expression builder\<close>

text \<open>
  The argument of \<^verbatim>\<open>expression.Value\<close> is an \<^verbatim>\<open>interface{}\<close>; the package passes a
  \<^verbatim>\<open>string\<close> (\<^verbatim>\<open>QueryRecords\<close>) and an \<^verbatim>\<open>int64\<close> (\<^verbatim>\<open>AddNumber\<close>).
\<close>

datatype go_value = GoString string | GoInt64 "64 word"

datatype operand = Name string | Value go_value

text \<open>
  \<^verbatim>\<open>expression.ConditionBuilder\<close>, a tree over names and values; \<open>UnsetCondition\<close> is
  the zero value \<^verbatim>\<open>expression.ConditionBuilder{}\<close>.
\<close>

datatype comparator = EQ | NE | LT | LE | GT | GE

datatype condition_builder =
    UnsetCondition
  | Compare comparator operand operand
  | And condition_builder condition_builder
  | Or condition_builder condition_builder
  | Not condition_builder

text \<open>
  \<^verbatim>\<open>expression.KeyConditionBuilder\<close>; \<open>KeyEqual k v\<close> is
  \<^verbatim>\<open>expression.Key(k).Equal(v)\<close>.
\<close>

datatype key_condition_builder =
    UnsetKeyCondition
  | KeyEqual string operand
  | KeyCompare comparator string operand
  | KeyAnd key_condition_builder key_condition_builder

text \<open>\<^verbatim>\<open>expression.UpdateBuilder\<close>; \<open>Add n v\<close> is \<^verbatim>\<open>expression.Add(n, v)\<close>.\<close>

datatype update_builder =
    Add operand operand
  | Set operand operand
  | Remove operand

text \<open>
  \<^verbatim>\<open>expression.Builder\<close>: which parts have been given. \<^verbatim>\<open>NewBuilder()\<close> has none;
  \<^verbatim>\<open>WithFilter\<close>, \<^verbatim>\<open>WithKeyCondition\<close> and \<^verbatim>\<open>WithUpdate\<close> each set one.
\<close>

record builder =
  b_filter :: "condition_builder option"
  b_keyCondition :: "key_condition_builder option"
  b_update :: "update_builder option"

definition NewBuilder :: builder where
  "NewBuilder = \<lparr>b_filter = None, b_keyCondition = None, b_update = None\<rparr>"

definition WithFilter :: "condition_builder \<Rightarrow> builder \<Rightarrow> builder" where
  "WithFilter c b = b\<lparr>b_filter := Some c\<rparr>"

definition WithKeyCondition :: "key_condition_builder \<Rightarrow> builder \<Rightarrow> builder" where
  "WithKeyCondition k b = b\<lparr>b_keyCondition := Some k\<rparr>"

definition WithUpdate :: "update_builder \<Rightarrow> builder \<Rightarrow> builder" where
  "WithUpdate u b = b\<lparr>b_update := Some u\<rparr>"

text \<open>
  \<^verbatim>\<open>expression.Expression\<close>, by what its accessors \<^verbatim>\<open>Names()\<close>, \<^verbatim>\<open>Values()\<close>,
  \<^verbatim>\<open>KeyCondition()\<close>, \<^verbatim>\<open>Filter()\<close> and \<^verbatim>\<open>Update()\<close> return.
\<close>

record expression =
  e_Names :: "string \<rightharpoonup> string"
  e_Values :: "string \<rightharpoonup> attribute_value"
  e_KeyCondition :: "string option"
  e_Filter :: "string option"
  e_Update :: "string option"

text \<open>
  \<^verbatim>\<open>Builder.Build()\<close> returns \<^verbatim>\<open>(Expression, error)\<close>; every caller in the package
  returns at once when the error is not nil, so the result is a sum.
\<close>

type_synonym build = "builder \<Rightarrow> error + expression"

subsection \<open>The client and the calls made on it\<close>

text \<open>
  The client handle stands for a remote service. Each operation takes the request and
  the state of the service and returns the response and the new state. The outputs of
  \<^verbatim>\<open>PutItem\<close>, \<^verbatim>\<open>BatchWriteItem\<close> and \<^verbatim>\<open>UpdateItem\<close> are bound to \<^verbatim>\<open>_\<close> in the code, so those
  operations return the error only.
\<close>

record 's client =
  PutItem :: "put_item_input \<Rightarrow> 's \<Rightarrow> error option \<times> 's"
  BatchWriteItem :: "batch_write_item_input \<Rightarrow> 's \<Rightarrow> error option \<times> 's"
  Query :: "query_input \<Rightarrow> 's \<Rightarrow> (error + query_output) \<times> 's"
  UpdateItem :: "update_item_input \<Rightarrow> 's \<Rightarrow> error option \<times> 's"

text \<open>One call on the client: the request as it was sent and the response to it.\<close>

datatype event =
    PutItemCall put_item_input "error option"
  | BatchWriteItemCall batch_write_item_input "error option"
  | QueryCall query_input "error + query_output"
  | UpdateItemCall update_item_input "error option"

text \<open>
  The world a function of the package runs in: the state of the service and the calls
  made on the client so far, oldest first.
\<close>

record 's world =
  backend :: 's
  trace :: "event list"

definition call_PutItem ::
  "'s client \<Rightarrow> put_item_input \<Rightarrow> 's world \<Rightarrow> error option \<times> 's world" where
  "call_PutItem c input w =
     (case PutItem c input (backend w) of
        (r, s') \<Rightarrow> (r, \<lparr>backend = s', trace = trace w @ [PutItemCall input r]\<rparr>))"

definition call_BatchWriteItem ::
  "'s client \<Rightarrow> batch_write_item_input \<Rightarrow> 's world \<Rightarrow> error option \<times> 's world" where
  "call_BatchWriteItem c input w =
     (case BatchWriteItem c input (backend w) of
        (r, s') \<Rightarrow> (r, \<lparr>backend = s', trace = trace w @ [BatchWriteItemCall input r]\<rparr>))"

definition call_Query ::
  "'s client \<Rightarrow> query_input \<Rightarrow> 's world \<Rightarrow> (error + query_output) \<times> 's world" where
  "call_Query c input w =
     (case Query c input (backend w) of
        (r, s') \<Rightarrow> (r, \<lparr>backend = s', trace = trace w @ [QueryCall input r]\<rparr>))"

definition call_UpdateItem ::
  "'s client \<Rightarrow> update_item_input \<Rightarrow> 's world \<Rightarrow> error option \<times> 's world" where
  "call_UpdateItem c input w =
     (case UpdateItem c input (backend w) of
        (r, s') \<Rightarrow> (r, \<lparr>backend = s', trace = trace w @ [UpdateItemCall input r]\<rparr>))"

text \<open>The calls made between two worlds.\<close>

definition calls_since :: "'s world \<Rightarrow> 's world \<Rightarrow> event list" where
  "calls_since w w' = drop (length (trace w)) (trace w')"

section \<open>WriteRecord\<close>

text \<open>
  The interface \<^verbatim>\<open>Payload\<close> has one method, \<^verbatim>\<open>Payload() (map, error)\<close>. A value of the
  interface is modelled by what the method returns on it: the error, or the item.

  \<^verbatim>\<open>
  func WriteRecord(client *dynamodb.DynamoDB, data Payload, table string) error {
      item, err := data.Payload()
      if err != nil { return err }
      input := &dynamodb.PutItemInput{Item: item, TableName: aws.String(table)}
      _, err = client.PutItem(input)
      if err != nil { return err }
      return nil
  }
  \<close>
\<close>

type_synonym 'd Payload = "'d \<Rightarrow> error + item"

definition WriteRecord ::
  "'s client \<Rightarrow> 'd Payload \<Rightarrow> 'd \<Rightarrow> string \<Rightarrow> 's world \<Rightarrow> error option \<times> 's world" where
  "WriteRecord client payload data table w =
     (case payload data of
        Inl err \<Rightarrow> (Some err, w)
      | Inr item \<Rightarrow>
          (let input = \<lparr>pi_Item = item, pi_TableName = Some table\<rparr> in
           case call_PutItem client input w of
             (Some err, w') \<Rightarrow> (Some err, w')
           | (None, w') \<Rightarrow> (None, w')))"

section \<open>WriteRecords\<close>

text \<open>
  A Go slice expression \<^verbatim>\<open>data[lo:hi]\<close> panics at run time unless
  \<^verbatim>\<open>0 <= lo <= hi <= cap(data)\<close>; the capacity is taken to be the length. \<^verbatim>\<open>data[lo:]\<close>
  is \<^verbatim>\<open>data[lo:len(data)]\<close>. \<open>None\<close> is the panic.
\<close>

definition slice :: "'a list \<Rightarrow> int \<Rightarrow> int \<Rightarrow> 'a list option" where
  "slice data lo hi =
     (if 0 \<le> lo \<and> lo \<le> hi \<and> hi \<le> int (length data)
      then Some (take (nat (hi - lo)) (drop (nat lo) data))
      else None)"

definition slice_from :: "'a list \<Rightarrow> int \<Rightarrow> 'a list option" where
  "slice_from data lo = slice data lo (int (length data))"

text \<open>What a call of \<^verbatim>\<open>WriteRecords\<close> does: it panics, or it returns an \<^verbatim>\<open>error\<close>.\<close>

datatype outcome = Panic | Return "error option"

text \<open>
  The body of both inner loops: one \<^verbatim>\<open>WriteRequest\<close> with a \<^verbatim>\<open>PutRequest\<close> for each
  record of the chunk, appended in order, under the table's name.
\<close>

definition batch_input :: "string \<Rightarrow> item list \<Rightarrow> batch_write_item_input" where
  "batch_input table chunk =
     \<lparr>bw_RequestItems =
        [table \<mapsto> map (\<lambda>v. \<lparr>wr_PutRequest = \<lparr>pr_Item = v\<rparr>\<rparr>) chunk]\<rparr>"

text \<open>
  \<^verbatim>\<open>
  length := int(math.Ceil(float64(len(data)) / float64(25)))
  for i := 0; i < length; i++ {
      if i < length-1 {
          ... range data[i*25 : (i+1)*25] ...
          _, err := client.BatchWriteItem(input)
          if err != nil { return err }
      } else {
          ... range data[i*25:] ...
          _, err := client.BatchWriteItem(input)
          if err != nil { return err }
      }
  }
  return nil
  \<close>
  The loop counter and the bound are Go \<^verbatim>\<open>int\<close>s, here unbounded integers (a slice of
  more than \<open>2 ^ 53\<close> records does not fit in memory). The bound, \<^verbatim>\<open>length\<close> in the
  source, is \<open>len\<close> here.
\<close>

function WriteRecords_loop ::
  "'s client \<Rightarrow> item list \<Rightarrow> string \<Rightarrow> int \<Rightarrow> int \<Rightarrow> 's world \<Rightarrow> outcome \<times> 's world" where
  "WriteRecords_loop client data table len i w =
     (if i < len then
        (if i < len - 1 then
           (case slice data (i * 25) ((i + 1) * 25) of
              None \<Rightarrow> (Panic, w)
            | Some chunk \<Rightarrow>
                (case call_BatchWriteItem client (batch_input table chunk) w of
                   (Some err, w') \<Rightarrow> (Return (Some err), w')
                 | (None, w') \<Rightarrow> WriteRecords_loop client data table len (i + 1) w'))
         else
           (case slice_from data (i * 25) of
              None \<Rightarrow> (Panic, w)
            | Some chunk \<Rightarrow>
                (case call_BatchWriteItem client (batch_input table chunk) w of
                   (Some err, w') \<Rightarrow> (Return (Some err), w')
                 | (None, w') \<Rightarrow> WriteRecords_loop client data table len (i + 1) w')))
      else (Return None, w))"
  by pat_completeness auto
termination
  by (relation "measure (\<lambda>(client, data, table, len, i, w). nat (len - i))") auto

declare WriteRecords_loop.simps [simp del]

text \<open>
  \<^verbatim>\<open>math.Ceil(float64(n) / float64(25))\<close> is the least integer not below \<open>n / 25\<close>:
  the conversion of a length and the rounded quotient are exact enough below
  \<open>2 ^ 53\<close> for the ceiling to be the exact one.
\<close>

definition ceil_div_25 :: "nat \<Rightarrow> int" where
  "ceil_div_25 n = (int n + 24) div 25"

definition WriteRecords ::
  "'s client \<Rightarrow> item list \<Rightarrow> string \<Rightarrow> 's world \<Rightarrow> outcome \<times> 's world" where
  "WriteRecords client data table w =
     (let len = ceil_div_25 (length data) in
      WriteRecords_loop client data table len 0 w)"

section \<open>QueryRecords and QueryRecordWithFilter\<close>

text \<open>
  The pagination loop, the same text in both functions:
  \<^verbatim>\<open>
  var output []map[string]*dynamodb.AttributeValue
  for {
      result, err := client.Query(input)
      if err != nil { return nil, err }
      output = append(output, result.Items...)
      if result.LastEvaluatedKey == nil { break }
      input.ExclusiveStartKey = result.LastEvaluatedKey
  }
  return output, nil
  \<close>
  Nothing bounds the number of rounds, so the loop is a partial function: \<open>None\<close> is a
  run that never returns. A returned pair is Go's \<^verbatim>\<open>(output, error)\<close>; a nil slice is
  the empty list.
\<close>

partial_function (option) query_loop ::
  "'s client \<Rightarrow> query_input \<Rightarrow> item list \<Rightarrow> 's world \<Rightarrow>
     ((item list \<times> error option) \<times> 's world) option" where
  "query_loop client input output w =
     (case call_Query client input w of
        (Inl err, w') \<Rightarrow> Some (([], Some err), w')
      | (Inr result, w') \<Rightarrow>
          (let output' = output @ qo_Items result in
           case qo_LastEvaluatedKey result of
             None \<Rightarrow> Some ((output', None), w')
           | Some k \<Rightarrow>
               query_loop client (input\<lparr>q_ExclusiveStartKey := Some k\<rparr>) output' w'))"

declare query_loop.simps [code]

text \<open>
  \<^verbatim>\<open>
  keyCondition := expression.Key(key).Equal(expression.Value(value))
  expr, err := expression.NewBuilder().WithFilter(condition).WithKeyCondition(keyCondition).Build()
  if err != nil { return nil, err }
  input := &dynamodb.QueryInput{ ... IndexName: aws.String(index), TableName: aws.String(table) }
  \<close>
\<close>

definition QueryRecords ::
  "build \<Rightarrow> 's client \<Rightarrow> string \<Rightarrow> string \<Rightarrow> string \<Rightarrow> string \<Rightarrow> condition_builder \<Rightarrow>
     's world \<Rightarrow> ((item list \<times> error option) \<times> 's world) option" where
  "QueryRecords Build client table index key val condition w =
     (let keyCondition = KeyEqual key (Value (GoString val)) in
      case Build (WithKeyCondition keyCondition (WithFilter condition NewBuilder)) of
        Inl err \<Rightarrow> Some (([], Some err), w)
      | Inr expr \<Rightarrow>
          (let input =
             \<lparr>q_ExpressionAttributeNames = e_Names expr,
              q_ExpressionAttributeValues = e_Values expr,
              q_KeyConditionExpression = e_KeyCondition expr,
              q_FilterExpression = e_Filter expr,
              q_IndexName = Some index,
              q_TableName = Some table,
              q_ExclusiveStartKey = None\<rparr>
           in query_loop client input [] w))"

text \<open>
  \<^verbatim>\<open>
  expr, err := expression.NewBuilder().WithKeyCondition(condition).WithFilter(filter).Build()
  if err != nil { return nil, err }
  input := &dynamodb.QueryInput{ ... TableName: aws.String(table) }
  \<close>
  No index name is given here.
\<close>

definition QueryRecordWithFilter ::
  "build \<Rightarrow> 's client \<Rightarrow> string \<Rightarrow> key_condition_builder \<Rightarrow> condition_builder \<Rightarrow>
     's world \<Rightarrow> ((item list \<times> error option) \<times> 's world) option" where
  "QueryRecordWithFilter Build client table condition filter' w =
     (case Build (WithFilter filter' (WithKeyCondition condition NewBuilder)) of
        Inl err \<Rightarrow> Some (([], Some err), w)
      | Inr expr \<Rightarrow>
          (let input =
             \<lparr>q_ExpressionAttributeNames = e_Names expr,
              q_ExpressionAttributeValues = e_Values expr,
              q_KeyConditionExpression = e_KeyCondition expr,
              q_FilterExpression = e_Filter expr,
              q_IndexName = None,
              q_TableName = Some table,
              q_ExclusiveStartKey = None\<rparr>
           in query_loop client input [] w))"

section \<open>AddNumber\<close>

text \<open>
  \<^verbatim>\<open>
  update := expression.Add(expression.Name(name), expression.Value(number))
  expr, err := expression.NewBuilder().WithUpdate(update).Build()
  if err != nil { return err }
  input := &dynamodb.UpdateItemInput{ ... Key: key, TableName: aws.String(table),
                                      UpdateExpression: expr.Update() }
  _, err = client.UpdateItem(input)
  if err != nil { return err }
  return nil
  \<close>
\<close>

definition AddNumber ::
  "build \<Rightarrow> 's client \<Rightarrow> string \<Rightarrow> item \<Rightarrow> string \<Rightarrow> 64 word \<Rightarrow> 's world \<Rightarrow>
     error option \<times> 's world" where
  "AddNumber Build client table key name number w =
     (let update = Add (Name name) (Value (GoInt64 number)) in
      case Build (WithUpdate update NewBuilder) of
        Inl err \<Rightarrow> (Some err, w)
      | Inr expr \<Rightarrow>
          (let input =
             \<lparr>ui_ExpressionAttributeNames = e_Names expr,
              ui_ExpressionAttributeValues = e_Values expr,
              ui_Key = key,
              ui_TableName = Some table,
              ui_UpdateExpression = e_Update expr\<rparr>
           in case call_UpdateItem client input w of
                (Some err, w') \<Rightarrow> (Some err, w')
              | (None, w') \<Rightarrow> (None, w')))"

section \<open>PrettyStructPrint\<close>

text \<open>
  \<^verbatim>\<open>
  func PrettyStructPrint(data interface{}) {
      marshalData, err := json.Marshal(data)
      if err != nil { log.Println(err.Error()) }
      fmt.Println(string(marshalData))
  }
  \<close>
  \<^verbatim>\<open>json.Marshal\<close> is a parameter; it returns the bytes and the error, and the code uses
  the bytes whatever the error is. The console is the bytes written to standard output
  and the messages given to the logger. \<^verbatim>\<open>fmt.Println\<close> writes its operand and a
  newline.
\<close>

record console =
  stdout :: string
  logged :: "string list"

fun Error_string :: "error \<Rightarrow> string" where
  "Error_string (Error msg) = msg"

definition newline :: char where
  "newline = CHR 0x0A"

definition PrettyStructPrint :: "('a \<Rightarrow> string \<times> error option) \<Rightarrow> 'a \<Rightarrow> console \<Rightarrow> console" where
  "PrettyStructPrint Marshal data io =
     (case Marshal data of
        (marshalData, err) \<Rightarrow>
          (let io1 = (case err of
                        Some e \<Rightarrow> io\<lparr>logged := logged io @ [Error_string e]\<rparr>
                      | None \<Rightarrow> io)
           in io1\<lparr>stdout := stdout io1 @ marshalData @ [newline]\<rparr>))"

section \<open>Notions used to state the properties\<close>

subsection \<open>Chunks of a batched write\<close>

text \<open>
  The specification's words: the sequence is partitioned into fixed-size chunks of at
  most 25, one batch-write request is issued per chunk, chunks are processed strictly in
  order, and the first failure ends the operation. \<open>chunk data k\<close> is the \<open>k\<close>-th
  chunk, counted from 0, and \<open>chunk_count data\<close> the number of chunks.
\<close>

definition chunk :: "'a list \<Rightarrow> nat \<Rightarrow> 'a list" where
  "chunk data k = take 25 (drop (k * 25) data)"

definition chunk_count :: "'a list \<Rightarrow> nat" where
  "chunk_count data = (length data + 24) div 25"

definition chunk_inputs :: "string \<Rightarrow> item list \<Rightarrow> nat \<Rightarrow> batch_write_item_input list" where
  "chunk_inputs table data k =
     map (\<lambda>j. batch_input table (chunk data j)) [k..<chunk_count data]"

fun issue_in_order ::
  "'s client \<Rightarrow> batch_write_item_input list \<Rightarrow> 's world \<Rightarrow> error option \<times> 's world" where
  "issue_in_order client [] w = (None, w)"
| "issue_in_order client (input # inputs) w =
     (case call_BatchWriteItem client input w of
        (Some err, w') \<Rightarrow> (Some err, w')
      | (None, w') \<Rightarrow> issue_in_order client inputs w')"

text \<open>The records that a batch-write call carries for a table.\<close>

fun items_of :: "string \<Rightarrow> event \<Rightarrow> item list" where
  "items_of table (BatchWriteItemCall input r) =
     (case bw_RequestItems input table of
        None \<Rightarrow> []
      | Some ws \<Rightarrow> map (\<lambda>wr. pr_Item (wr_PutRequest wr)) ws)"
| "items_of table ev = []"

subsection \<open>What a service answers to a sequence of requests\<close>

text \<open>
  \<open>feed f reqs s\<close>: the responses of the operation \<open>f\<close> to the requests \<open>reqs\<close>,
  sent one after the other to a service that starts in state \<open>s\<close>.
\<close>

fun feed :: "('i \<Rightarrow> 's \<Rightarrow> 'o \<times> 's) \<Rightarrow> 'i list \<Rightarrow> 's \<Rightarrow> 'o list" where
  "feed f [] s = []"
| "feed f (i # is) s = (case f i s of (out, s') \<Rightarrow> out # feed f is s')"

text \<open>
  The requests of a query paged through \<open>ps\<close>: the first request, then for each page
  the same request with that page's last-evaluated key as exclusive start key.
\<close>

definition cursor_requests :: "query_input \<Rightarrow> query_output list \<Rightarrow> query_input list" where
  "cursor_requests input ps =
     input # map (\<lambda>p. input\<lparr>q_ExclusiveStartKey := qo_LastEvaluatedKey p\<rparr>) ps"

text \<open>
  \<open>pages_then client input s ps r\<close>: paged through from \<open>input\<close>, the service in state
  \<open>s\<close> returns the pages \<open>ps\<close>, each with a continuation cursor, and then answers
  \<open>r\<close>.
\<close>

definition pages_then ::
  "'s client \<Rightarrow> query_input \<Rightarrow> 's \<Rightarrow> query_output list \<Rightarrow> error + query_output \<Rightarrow> bool" where
  "pages_then client input s ps r \<longleftrightarrow>
     feed (Query client) (cursor_requests input ps) s = map Inr ps @ [r] \<and>
     list_all (\<lambda>p. qo_LastEvaluatedKey p \<noteq> None) ps"

text \<open>The request that \<^verbatim>\<open>QueryRecords\<close> and \<^verbatim>\<open>QueryRecordWithFilter\<close> build from an expression.\<close>

definition first_query :: "expression \<Rightarrow> string option \<Rightarrow> string \<Rightarrow> query_input" where
  "first_query expr index table =
     \<lparr>q_ExpressionAttributeNames = e_Names expr,
      q_ExpressionAttributeValues = e_Values expr,
      q_KeyConditionExpression = e_KeyCondition expr,
      q_FilterExpression = e_Filter expr,
      q_IndexName = index,
      q_TableName = Some table,
      q_ExclusiveStartKey = None\<rparr>"

subsection \<open>Responses that end a query, and what the query returns\<close>

text \<open>
  A response ends the pagination loop when it is an error or a page without a
  last-evaluated key. \<open>returned acc ps r\<close> is Go's pair \<^verbatim>\<open>(output, err)\<close> after the
  pages \<open>ps\<close> and the final response \<open>r\<close>, for a loop entered with \<open>acc\<close>
  accumulated. \<open>start_key_of\<close> reads the exclusive start key that a query call sent.
\<close>

fun final_response :: "error + query_output \<Rightarrow> bool" where
  "final_response (Inl err) = True"
| "final_response (Inr p) = (qo_LastEvaluatedKey p = None)"

fun returned :: "item list \<Rightarrow> query_output list \<Rightarrow> error + query_output \<Rightarrow> item list \<times> error option" where
  "returned acc ps (Inl err) = ([], Some err)"
| "returned acc ps (Inr p) = (acc @ concat (map qo_Items ps) @ qo_Items p, None)"

fun start_key_of :: "event \<Rightarrow> item option" where
  "start_key_of (QueryCall input r) = q_ExclusiveStartKey input"
| "start_key_of ev = None"

subsection \<open>A scripted service and a builder, to run the functions on concrete inputs\<close>

text \<open>
  Each operation of the scripted service answers with the next response of its script,
  whatever the request; when the script is used up, a write succeeds and a query
  returns an empty last page.
\<close>

record script =
  put_script :: "error option list"
  batch_script :: "error option list"
  query_script :: "(error + query_output) list"
  update_script :: "error option list"

definition scripted :: "script client" where
  "scripted =
     \<lparr>PutItem = (\<lambda>input s. case put_script s of
                    [] \<Rightarrow> (None, s)
                  | r # rs \<Rightarrow> (r, s\<lparr>put_script := rs\<rparr>)),
      BatchWriteItem = (\<lambda>input s. case batch_script s of
                    [] \<Rightarrow> (None, s)
                  | r # rs \<Rightarrow> (r, s\<lparr>batch_script := rs\<rparr>)),
      Query = (\<lambda>input s. case query_script s of
                    [] \<Rightarrow> (Inr \<lparr>qo_Items = [], qo_LastEvaluatedKey = None\<rparr>, s)
                  | r # rs \<Rightarrow> (r, s\<lparr>query_script := rs\<rparr>)),
      UpdateItem = (\<lambda>input s. case update_script s of
                    [] \<Rightarrow> (None, s)
                  | r # rs \<Rightarrow> (r, s\<lparr>update_script := rs\<rparr>))\<rparr>"

definition no_script :: script where
  "no_script = \<lparr>put_script = [], batch_script = [], query_script = [], update_script = []\<rparr>"

definition start :: "script \<Rightarrow> script world" where
  "start s = \<lparr>backend = s, trace = []\<rparr>"

text \<open>
  A builder that refuses what the SDK's \<^verbatim>\<open>Build\<close> refuses in these calls (a builder with
  no part, an unset condition, an empty attribute or key name) and returns fixed texts
  otherwise.
\<close>

fun operand_set :: "operand \<Rightarrow> bool" where
  "operand_set (Name n) = (n \<noteq> [])"
| "operand_set (Value v) = True"

fun condition_set :: "condition_builder \<Rightarrow> bool" where
  "condition_set UnsetCondition = False"
| "condition_set (Compare cmp a b) = (operand_set a \<and> operand_set b)"
| "condition_set (And a b) = (condition_set a \<and> condition_set b)"
| "condition_set (Or a b) = (condition_set a \<and> condition_set b)"
| "condition_set (Not a) = condition_set a"

fun key_condition_set :: "key_condition_builder \<Rightarrow> bool" where
  "key_condition_set UnsetKeyCondition = False"
| "key_condition_set (KeyEqual k v) = (k \<noteq> [] \<and> operand_set v)"
| "key_condition_set (KeyCompare cmp k v) = (k \<noteq> [] \<and> operand_set v)"
| "key_condition_set (KeyAnd a b) = (key_condition_set a \<and> key_condition_set b)"

fun update_set :: "update_builder \<Rightarrow> bool" where
  "update_set (Add n v) = (operand_set n \<and> operand_set v)"
| "update_set (Set n v) = (operand_set n \<and> operand_set v)"
| "update_set (Remove n) = operand_set n"

definition strict_Build :: build where
  "strict_Build b =
     (if b_filter b = None \<and> b_keyCondition b = None \<and> b_update b = None
      then Inl (Error ''unset parameter: Builder'')
      else if (case b_filter b of None \<Rightarrow> True | Some c \<Rightarrow> condition_set c) \<and>
              (case b_keyCondition b of None \<Rightarrow> True | Some k \<Rightarrow> key_condition_set k) \<and>
              (case b_update b of None \<Rightarrow> True | Some u \<Rightarrow> update_set u)
      then Inr \<lparr>e_Names = [''#0'' \<mapsto> ''name''],
                e_Values = [('':0'') \<mapsto> NULL],
                e_KeyCondition = map_option (\<lambda>k. ''key condition'') (b_keyCondition b),
                e_Filter = map_option (\<lambda>c. ''filter'') (b_filter b),
                e_Update = map_option (\<lambda>u. ''update'') (b_update b)\<rparr>
      else Inl (Error ''unset parameter''))"

text \<open>Records, an error and two inputs that do not fit in one chunk.\<close>

definition item_a :: item where
  "item_a = [''id'' \<mapsto> S ''a'']"

definition item_b :: item where
  "item_b = [''id'' \<mapsto> S ''b'']"

definition item_c :: item where
  "item_c = [''id'' \<mapsto> S ''c'']"

definition records_51 :: "item list" where
  "records_51 = replicate 25 item_a @ replicate 25 item_b @ [item_c]"

definition records_26 :: "item list" where
  "records_26 = replicate 25 item_a @ [item_b]"

definition throttled :: error where
  "throttled = Error ''ProvisionedThroughputExceededException''"

text \<open>
  Three pages, of which the last has no last-evaluated key; a service that serves them,
  and one whose second response is an error; a filter and the expression that
  \<open>strict_Build\<close> returns for a key condition with a filter.
\<close>

definition page_1 :: query_output where
  "page_1 = \<lparr>qo_Items = [item_a], qo_LastEvaluatedKey = Some item_a\<rparr>"

definition page_2 :: query_output where
  "page_2 = \<lparr>qo_Items = [item_b], qo_LastEvaluatedKey = Some item_b\<rparr>"

definition page_3 :: query_output where
  "page_3 = \<lparr>qo_Items = [item_c], qo_LastEvaluatedKey = None\<rparr>"

definition three_pages :: "script world" where
  "three_pages = start (no_script\<lparr>query_script := [Inr page_1, Inr page_2, Inr page_3]\<rparr>)"

definition second_page_fails :: "script world" where
  "second_page_fails = start (no_script\<lparr>query_script := [Inr page_1, Inl throttled]\<rparr>)"

definition is_open :: condition_builder where
  "is_open = Compare EQ (Name ''status'') (Value (GoString ''open''))"

definition built :: expression where
  "built = \<lparr>e_Names = [''#0'' \<mapsto> ''name''], e_Values = [('':0'') \<mapsto> NULL],
            e_KeyCondition = Some ''key condition'', e_Filter = Some ''filter'',
            e_Update = None\<rparr>"

text \<open>
  A type with a \<^verbatim>\<open>Payload\<close> method (a user without a name cannot be converted), and a
  marshaller that fails on a value it cannot serialize.
\<close>

datatype user = User string

fun user_Payload :: "user Payload" where
  "user_Payload (User n) =
     (if n = [] then Inl (Error ''user has no name'') else Inr [''name'' \<mapsto> S n])"

fun sample_Marshal :: "string option \<Rightarrow> string \<times> error option" where
  "sample_Marshal (Some text) = (text, None)"
| "sample_Marshal None = ([], Some (Error ''json: unsupported type''))"

definition console0 :: console where
  "console0 = \<lparr>stdout = [], logged = []\<rparr>"

section \<open>Properties of WriteRecords\<close>

subsection \<open>The loop issues the chunks in order\<close>

lemma ceil_div_25_chunk_count: "ceil_div_25 (length data) = int (chunk_count data)"
  unfolding ceil_div_25_def chunk_count_def by (simp add: zdiv_int)

lemma chunk_count_le: "k \<le> chunk_count data \<longleftrightarrow> k * 25 \<le> length data + 24"
  unfolding chunk_count_def by (simp add: less_eq_div_iff_mult_less_eq)

lemma slice_inner:
  assumes "Suc k < chunk_count data"
  shows "slice data (int k * 25) ((int k + 1) * 25) = Some (chunk data k)"
proof -
  from assms have "Suc (Suc k) \<le> chunk_count data" by simp
  then have "Suc (Suc k) * 25 \<le> length data + 24" by (simp only: chunk_count_le)
  then have le: "k * 25 + 25 \<le> length data" by simp
  have "nat (int k * 25) = k * 25" by (simp add: nat_mult_distrib)
  moreover have "nat ((int k + 1) * 25 - int k * 25) = 25" by (simp add: algebra_simps)
  moreover have "(int k + 1) * 25 \<le> int (length data)"
    using of_nat_mono[OF le, where 'a = int] by (simp add: algebra_simps)
  ultimately show ?thesis
    unfolding slice_def chunk_def by simp
qed

lemma slice_last:
  assumes "Suc k = chunk_count data"
  shows "slice_from data (int k * 25) = Some (chunk data k)"
proof -
  have "Suc k \<le> chunk_count data" using assms by simp
  then have "Suc k * 25 \<le> length data + 24" by (simp only: chunk_count_le)
  then have lo: "k * 25 \<le> length data" by simp
  have "\<not> Suc (Suc k) \<le> chunk_count data" using assms by simp
  then have "\<not> Suc (Suc k) * 25 \<le> length data + 24" using chunk_count_le by blast
  then have hi: "length data - k * 25 \<le> 25" by simp
  have n: "nat (int k * 25) = k * 25" by (simp add: nat_mult_distrib)
  have i: "int k * 25 \<le> int (length data)"
    using of_nat_mono[OF lo, where 'a = int] by simp
  have "nat (int (length data) - int k * 25) = length data - k * 25"
    by (simp add: nat_diff_distrib' nat_mult_distrib)
  then show ?thesis
    unfolding slice_from_def slice_def chunk_def using n i hi by simp
qed

lemma chunk_inputs_end: "chunk_inputs table data (chunk_count data) = []"
  by (simp add: chunk_inputs_def)

lemma chunk_inputs_step:
  "k < chunk_count data \<Longrightarrow>
   chunk_inputs table data k = batch_input table (chunk data k) # chunk_inputs table data (Suc k)"
  by (simp add: chunk_inputs_def upt_conv_Cons)

lemma WriteRecords_loop_issue:
  assumes len: "len = int (chunk_count data)"
  shows "k \<le> chunk_count data \<Longrightarrow>
    WriteRecords_loop client data table len (int k) w =
      (case issue_in_order client (chunk_inputs table data k) w of
         (r, w') \<Rightarrow> (Return r, w'))"
proof (induction "chunk_count data - k" arbitrary: k w)
  case 0
  then have "k = chunk_count data" by simp
  then show ?case
    using len by (subst WriteRecords_loop.simps) (simp add: chunk_inputs_end)
next
  case (Suc d)
  then have lt: "k < chunk_count data" by simp
  have IH: "WriteRecords_loop client data table len (int k + 1) w' =
      (case issue_in_order client (chunk_inputs table data (Suc k)) w' of
         (r, w'') \<Rightarrow> (Return r, w''))" for w'
    using Suc.hyps(1)[of "Suc k" w'] Suc.hyps(2) lt by (simp add: add.commute)
  have c1: "int k < len" using lt len by simp
  show ?case
  proof (cases "Suc k < chunk_count data")
    case True
    then have c2: "int k < len - 1" using len by simp
    show ?thesis
      apply (subst WriteRecords_loop.simps)
      apply (simp only: c1 c2 if_True slice_inner[OF True] option.case
          chunk_inputs_step[OF lt] issue_in_order.simps IH)
      apply (simp split: prod.splits option.splits)
      done
  next
    case False
    with lt have last: "Suc k = chunk_count data" by simp
    then have c2: "\<not> int k < len - 1" using len by simp
    show ?thesis
      apply (subst WriteRecords_loop.simps)
      apply (simp only: c1 c2 if_True if_False slice_last[OF last] option.case
          chunk_inputs_step[OF lt] issue_in_order.simps IH)
      apply (simp split: prod.splits option.splits)
      done
  qed
qed

lemma WriteRecords_issue:
  "WriteRecords client data table w =
     (case issue_in_order client (chunk_inputs table data 0) w of
        (r, w') \<Rightarrow> (Return r, w'))"
  unfolding WriteRecords_def Let_def
  using WriteRecords_loop_issue[OF ceil_div_25_chunk_count, of 0 data client table w]
  by simp

lemma issue_in_order_cases:
  "issue_in_order client inputs w = (r, w') \<Longrightarrow>
   (r = None \<and>
    trace w' = trace w @ map (\<lambda>i. BatchWriteItemCall i None) inputs) \<or>
   (\<exists>e m. r = Some e \<and> m < length inputs \<and>
      trace w' = trace w @ map (\<lambda>i. BatchWriteItemCall i None) (take m inputs)
                 @ [BatchWriteItemCall (inputs ! m) (Some e)])"
proof (induction inputs arbitrary: w)
  case Nil
  then show ?case by simp
next
  case (Cons input inputs)
  obtain r1 w1 where c: "call_BatchWriteItem client input w = (r1, w1)"
    by (cases "call_BatchWriteItem client input w")
  then have t1: "trace w1 = trace w @ [BatchWriteItemCall input r1]"
    by (auto simp: call_BatchWriteItem_def split: prod.splits)
  show ?case
  proof (cases r1)
    case None
    with c Cons.prems have "issue_in_order client inputs w1 = (r, w')" by simp
    from Cons.IH[OF this] show ?thesis
    proof (elim disjE conjE exE)
      assume "r = None" "trace w' = trace w1 @ map (\<lambda>i. BatchWriteItemCall i None) inputs"
      then show ?thesis using t1 None by simp
    next
      fix e m
      assume "r = Some e" "m < length inputs"
        "trace w' = trace w1 @ map (\<lambda>i. BatchWriteItemCall i None) (take m inputs)
                 @ [BatchWriteItemCall (inputs ! m) (Some e)]"
      then have "r = Some e \<and> Suc m < length (input # inputs) \<and>
        trace w' = trace w @ map (\<lambda>i. BatchWriteItemCall i None) (take (Suc m) (input # inputs))
                 @ [BatchWriteItemCall ((input # inputs) ! Suc m) (Some e)]"
        using t1 None by simp
      then show ?thesis by blast
    qed
  next
    case (Some e)
    with c Cons.prems have "r = Some e" "w' = w1" by simp_all
    then have "r = Some e \<and> 0 < length (input # inputs) \<and>
        trace w' = trace w @ map (\<lambda>i. BatchWriteItemCall i None) (take 0 (input # inputs))
                 @ [BatchWriteItemCall ((input # inputs) ! 0) (Some e)]"
      using t1 Some by simp
    then show ?thesis by blast
  qed
qed

lemma length_chunk_inputs: "length (chunk_inputs table data 0) = chunk_count data"
  by (simp add: chunk_inputs_def)

lemma nth_chunk_inputs:
  "k < chunk_count data \<Longrightarrow> chunk_inputs table data 0 ! k = batch_input table (chunk data k)"
  by (simp add: chunk_inputs_def)

lemma items_of_batch_input:
  "items_of table (BatchWriteItemCall (batch_input table c) r) = c"
  by (simp add: batch_input_def comp_def)

lemma length_chunk_inner:
  assumes "Suc k < chunk_count data"
  shows "length (chunk data k) = 25"
proof -
  from assms have "Suc (Suc k) \<le> chunk_count data" by simp
  then have "Suc (Suc k) * 25 \<le> length data + 24" by (simp only: chunk_count_le)
  then show ?thesis by (simp add: chunk_def)
qed

lemma length_chunk_last:
  assumes "0 < length data"
  shows "length (chunk data (chunk_count data - 1)) =
           (if length data mod 25 = 0 then 25 else length data mod 25)"
proof -
  define q where "q = (length data - 1) div 25"
  define r where "r = (length data - 1) mod 25"
  have r: "r < 25" unfolding r_def by simp
  have "length data - 1 = q * 25 + r" unfolding q_def r_def by simp
  moreover have "length data = (length data - 1) + 1" using assms by linarith
  ultimately have L: "length data = q * 25 + (r + 1)" by linarith
  have "length data + 24 = (q + 1) * 25 + r" using L by simp
  then have "chunk_count data = q + 1"
    unfolding chunk_count_def using r by simp
  then have len: "length (chunk data (chunk_count data - 1)) = r + 1"
    using L r by (simp add: chunk_def)
  have "length data mod 25 = (r + 1) mod 25" using L by simp
  then have "(if length data mod 25 = 0 then 25 else length data mod 25) = r + 1"
    using r by (cases "r = 24") simp_all
  with len show ?thesis by simp
qed

lemma chunk_count_ceiling: "int (chunk_count data) = \<lceil>real (length data) / 25\<rceil>"
proof -
  have "\<lceil>real (length data) / 25\<rceil> = \<lceil>of_int (int (length data)) / (of_int 25 :: real)\<rceil>"
    by simp
  also have "\<dots> = - (- int (length data) div 25)"
    by (rule ceiling_divide_eq_div)
  also have "\<dots> = int (chunk_count data)"
    unfolding chunk_count_def by (simp add: zdiv_int)
  finally show ?thesis by simp
qed

lemma items_of_chunk_calls:
  "map (items_of table) (map (\<lambda>k. BatchWriteItemCall (batch_input table (chunk data k)) r) ks) =
     map (chunk data) ks"
  by (simp only: map_map comp_def items_of_batch_input)

lemma concat_chunks_take: "concat (map (chunk data) [0..<m]) = take (m * 25) data"
proof (induction m)
  case 0
  then show ?case by simp
next
  case (Suc m)
  have "concat (map (chunk data) [0..<Suc m]) =
      concat (map (chunk data) [0..<m]) @ chunk data m"
    by simp
  also have "\<dots> = take (m * 25) data @ take 25 (drop (m * 25) data)"
    by (simp only: Suc chunk_def)
  also have "\<dots> = take (m * 25 + 25) data"
    by (simp only: take_add)
  also have "m * 25 + 25 = Suc m * 25" by simp
  finally show ?case .
qed

lemma chunk_count_covers: "length data \<le> chunk_count data * 25"
proof -
  have "\<not> Suc (chunk_count data) \<le> chunk_count data" by simp
  then have "\<not> Suc (chunk_count data) * 25 \<le> length data + 24"
    using chunk_count_le by blast
  then show ?thesis by simp
qed

lemma concat_chunks: "concat (map (chunk data) [0..<chunk_count data]) = data"
  by (simp add: concat_chunks_take chunk_count_covers)

subsection \<open>Runs on the scripted service\<close>

lemma calls_since_append: "trace w' = trace w @ xs \<Longrightarrow> calls_since w w' = xs"
  by (simp add: calls_since_def)

lemma scripted_batch_Nil:
  "batch_script (backend w) = [] \<Longrightarrow>
   call_BatchWriteItem scripted input w =
     (None, \<lparr>backend = backend w, trace = trace w @ [BatchWriteItemCall input None]\<rparr>)"
  by (simp add: call_BatchWriteItem_def scripted_def)

lemma scripted_batch_Cons:
  "batch_script (backend w) = r # rs \<Longrightarrow>
   call_BatchWriteItem scripted input w =
     (r, \<lparr>backend = (backend w)\<lparr>batch_script := rs\<rparr>,
         trace = trace w @ [BatchWriteItemCall input r]\<rparr>)"
  by (simp add: call_BatchWriteItem_def scripted_def)

lemma chunk_inputs_records_51:
  "chunk_inputs ''t'' records_51 0 =
     [batch_input ''t'' (replicate 25 item_a), batch_input ''t'' (replicate 25 item_b),
      batch_input ''t'' [item_c]]"
  by (simp add: records_51_def chunk_inputs_def chunk_count_def chunk_def upt_conv_Cons)

lemma chunk_inputs_records_26:
  "chunk_inputs ''t'' records_26 0 =
     [batch_input ''t'' (replicate 25 item_a), batch_input ''t'' [item_b]]"
  by (simp add: records_26_def chunk_inputs_def chunk_count_def chunk_def upt_conv_Cons)

lemma WriteRecords_records_51_second_fails:
  "WriteRecords scripted records_51 ''t'' (start (no_script\<lparr>batch_script := [None, Some throttled]\<rparr>)) =
   (Return (Some throttled),
    \<lparr>backend = no_script,
     trace = [BatchWriteItemCall (batch_input ''t'' (replicate 25 item_a)) None,
              BatchWriteItemCall (batch_input ''t'' (replicate 25 item_b)) (Some throttled)]\<rparr>)"
  by (simp add: WriteRecords_issue chunk_inputs_records_51 scripted_batch_Cons scripted_batch_Nil
      start_def no_script_def)

lemma WriteRecords_records_51_ok:
  "WriteRecords scripted records_51 ''t'' (start no_script) =
   (Return None,
    \<lparr>backend = no_script,
     trace = [BatchWriteItemCall (batch_input ''t'' (replicate 25 item_a)) None,
              BatchWriteItemCall (batch_input ''t'' (replicate 25 item_b)) None,
              BatchWriteItemCall (batch_input ''t'' [item_c]) None]\<rparr>)"
  by (simp add: WriteRecords_issue chunk_inputs_records_51 scripted_batch_Nil
      start_def no_script_def)

lemma WriteRecords_records_26_first_fails:
  "WriteRecords scripted records_26 ''t'' (start (no_script\<lparr>batch_script := [Some throttled]\<rparr>)) =
   (Return (Some throttled),
    \<lparr>backend = no_script,
     trace = [BatchWriteItemCall (batch_input ''t'' (replicate 25 item_a)) (Some throttled)]\<rparr>)"
  by (simp add: WriteRecords_issue chunk_inputs_records_26 scripted_batch_Cons scripted_batch_Nil
      start_def no_script_def)

lemma WriteRecords_single:
  "WriteRecords scripted [item_c] ''t'' (start no_script) =
   (Return None,
    \<lparr>backend = no_script, trace = [BatchWriteItemCall (batch_input ''t'' [item_c]) None]\<rparr>)"
  by (simp add: WriteRecords_issue chunk_inputs_def chunk_count_def chunk_def scripted_batch_Nil
      start_def no_script_def)

lemma WriteRecords_shape:
  assumes run: "WriteRecords client data table w = (out, w')"
  shows "(out = Return None \<and>
       trace w' = trace w @
         map (\<lambda>k. BatchWriteItemCall (batch_input table (chunk data k)) None)
           [0..<chunk_count data]) \<or>
       (\<exists>e m. out = Return (Some e) \<and> m < chunk_count data \<and>
          trace w' = trace w @
            map (\<lambda>k. BatchWriteItemCall (batch_input table (chunk data k)) None) [0..<m] @
            [BatchWriteItemCall (batch_input table (chunk data m)) (Some e)])"
proof -
  obtain r where iss: "issue_in_order client (chunk_inputs table data 0) w = (r, w')"
    and out: "out = Return r"
    using run by (auto simp: WriteRecords_issue split: prod.splits)
  have all: "map (\<lambda>i. BatchWriteItemCall i None) (chunk_inputs table data 0) =
      map (\<lambda>k. BatchWriteItemCall (batch_input table (chunk data k)) None) [0..<chunk_count data]"
    by (simp add: chunk_inputs_def comp_def)
  have some: "map (\<lambda>i. BatchWriteItemCall i None) (take m (chunk_inputs table data 0)) =
      map (\<lambda>k. BatchWriteItemCall (batch_input table (chunk data k)) None) [0..<m]"
    if "m < chunk_count data" for m
    using that by (simp add: chunk_inputs_def comp_def take_map take_upt)
  from issue_in_order_cases[OF iss] show ?thesis
  proof (elim disjE conjE exE)
    assume "r = None"
      "trace w' = trace w @ map (\<lambda>i. BatchWriteItemCall i None) (chunk_inputs table data 0)"
    then show ?thesis using out all by simp
  next
    fix e m
    assume r: "r = Some e" and m: "m < length (chunk_inputs table data 0)"
      and t: "trace w' = trace w @
          map (\<lambda>i. BatchWriteItemCall i None) (take m (chunk_inputs table data 0)) @
          [BatchWriteItemCall (chunk_inputs table data 0 ! m) (Some e)]"
    from m have m': "m < chunk_count data" by (simp add: length_chunk_inputs)
    have "trace w' = trace w @
            map (\<lambda>k. BatchWriteItemCall (batch_input table (chunk data k)) None) [0..<m] @
            [BatchWriteItemCall (batch_input table (chunk data m)) (Some e)]"
      using t some[OF m'] nth_chunk_inputs[OF m'] by simp
    with m' out r show ?thesis by blast
  qed
qed

subsection \<open>The empty input\<close>

text \<open>
  Claim C4. \<^verbatim>\<open>WriteRecords\<close> applied to the empty sequence returns nil and makes no
  call on the client: the world, and with it the trace of calls, is unchanged.
\<close>

theorem WriteRecords_empty:
  "WriteRecords client [] table w = (Return None, w)"
  by (simp add: WriteRecords_issue chunk_inputs_def chunk_count_def)

subsection \<open>Order of the chunks and the first failure\<close>

text \<open>
  Claim C3. \<^verbatim>\<open>WriteRecords\<close> never panics, and the calls it makes are batch writes of
  the chunks in input order. When it returns nil, it has made one call per chunk, each
  call succeeded, the records carried by call \<open>k\<close> are those of chunk \<open>k\<close>, and the
  records of all calls, one after the other, are the input. When it returns an error
  \<open>e\<close>, there is a chunk \<open>m\<close> such that the calls are those for the chunks
  \<open>0\<close> to \<open>m\<close>, carrying these chunks' records in order (the first
  \<open>25 * (m + 1)\<close> records of the input), the calls before the last succeeded, the
  last failed with \<open>e\<close>, and no call follows. So it returns nil exactly when every call
  it made succeeded.
\<close>

theorem WriteRecords_in_order:
  assumes run: "WriteRecords client data table w = (out, w')"
  shows "out \<noteq> Panic \<and>
    trace w' = trace w @ calls_since w w' \<and>
    (out = Return None \<longrightarrow>
       calls_since w w' =
         map (\<lambda>k. BatchWriteItemCall (batch_input table (chunk data k)) None)
           [0..<chunk_count data] \<and>
       map (items_of table) (calls_since w w') = map (chunk data) [0..<chunk_count data] \<and>
       concat (map (items_of table) (calls_since w w')) = data) \<and>
    (\<forall>e. out = Return (Some e) \<longrightarrow>
       (\<exists>m<chunk_count data.
          calls_since w w' =
            map (\<lambda>k. BatchWriteItemCall (batch_input table (chunk data k)) None) [0..<m] @
            [BatchWriteItemCall (batch_input table (chunk data m)) (Some e)] \<and>
          map (items_of table) (calls_since w w') = map (chunk data) [0..<Suc m] \<and>
          concat (map (items_of table) (calls_since w w')) = take (Suc m * 25) data)) \<and>
    ((out = Return None) =
       list_all (\<lambda>ev. \<exists>input. ev = BatchWriteItemCall input None) (calls_since w w'))"
proof -
  let ?ok = "\<lambda>k. BatchWriteItemCall (batch_input table (chunk data k)) None"
  from WriteRecords_shape[OF run] show ?thesis
  proof (elim disjE conjE exE)
    assume out: "out = Return None"
      and t: "trace w' = trace w @ map ?ok [0..<chunk_count data]"
    have cs: "calls_since w w' = map ?ok [0..<chunk_count data]"
      by (rule calls_since_append[OF t])
    have items: "map (items_of table) (calls_since w w') = map (chunk data) [0..<chunk_count data]"
      unfolding cs by (rule items_of_chunk_calls)
    have all: "concat (map (items_of table) (calls_since w w')) = data"
      unfolding items by (rule concat_chunks)
    have ok: "list_all (\<lambda>ev. \<exists>input. ev = BatchWriteItemCall input None) (calls_since w w')"
      unfolding cs by (simp add: list_all_iff)
    show ?thesis
      using out t cs items all ok by simp
  next
    fix e m
    assume out: "out = Return (Some e)" and m: "m < chunk_count data"
      and t: "trace w' = trace w @ map ?ok [0..<m] @
            [BatchWriteItemCall (batch_input table (chunk data m)) (Some e)]"
    have cs: "calls_since w w' = map ?ok [0..<m] @
            [BatchWriteItemCall (batch_input table (chunk data m)) (Some e)]"
      by (rule calls_since_append[OF t])
    have "map (items_of table) (calls_since w w') =
        map (items_of table) (map ?ok [0..<m]) @
        [items_of table (BatchWriteItemCall (batch_input table (chunk data m)) (Some e))]"
      unfolding cs by simp
    also have "\<dots> = map (chunk data) [0..<m] @ [chunk data m]"
      by (simp only: items_of_chunk_calls items_of_batch_input)
    also have "\<dots> = map (chunk data) [0..<Suc m]" by simp
    finally have items: "map (items_of table) (calls_since w w') = map (chunk data) [0..<Suc m]" .
    have part: "concat (map (items_of table) (calls_since w w')) = take (Suc m * 25) data"
      unfolding items by (rule concat_chunks_take)
    have ex: "\<exists>m<chunk_count data.
          calls_since w w' = map ?ok [0..<m] @
            [BatchWriteItemCall (batch_input table (chunk data m)) (Some e)] \<and>
          map (items_of table) (calls_since w w') = map (chunk data) [0..<Suc m] \<and>
          concat (map (items_of table) (calls_since w w')) = take (Suc m * 25) data"
      using cs items part m by blast
    have notok: "\<not> list_all (\<lambda>ev. \<exists>input. ev = BatchWriteItemCall input None) (calls_since w w')"
      unfolding cs by (simp add: list_all_iff)
    show ?thesis
      using out t cs ex notok by simp
  qed
qed

theorem WriteRecords_in_order_witness:
  "fst (WriteRecords scripted records_51 ''t''
          (start (no_script\<lparr>batch_script := [None, Some throttled]\<rparr>))) = Return (Some throttled) \<and>
   calls_since (start (no_script\<lparr>batch_script := [None, Some throttled]\<rparr>))
     (snd (WriteRecords scripted records_51 ''t''
          (start (no_script\<lparr>batch_script := [None, Some throttled]\<rparr>)))) =
     [BatchWriteItemCall (batch_input ''t'' (replicate 25 item_a)) None,
      BatchWriteItemCall (batch_input ''t'' (replicate 25 item_b)) (Some throttled)] \<and>
   map (items_of ''t'')
     (calls_since (start (no_script\<lparr>batch_script := [None, Some throttled]\<rparr>))
       (snd (WriteRecords scripted records_51 ''t''
          (start (no_script\<lparr>batch_script := [None, Some throttled]\<rparr>))))) =
     [replicate 25 item_a, replicate 25 item_b] \<and>
   fst (WriteRecords scripted records_51 ''t'' (start no_script)) = Return None \<and>
   calls_since (start no_script)
     (snd (WriteRecords scripted records_51 ''t'' (start no_script))) =
     [BatchWriteItemCall (batch_input ''t'' (replicate 25 item_a)) None,
      BatchWriteItemCall (batch_input ''t'' (replicate 25 item_b)) None,
      BatchWriteItemCall (batch_input ''t'' [item_c]) None] \<and>
   map (items_of ''t'')
     (calls_since (start no_script)
       (snd (WriteRecords scripted records_51 ''t'' (start no_script)))) =
     [replicate 25 item_a, replicate 25 item_b, [item_c]] \<and>
   concat (map (items_of ''t'')
     (calls_since (start no_script)
       (snd (WriteRecords scripted records_51 ''t'' (start no_script))))) = records_51 \<and>
   chunk_count records_51 = 3"
proof -
  let ?w0 = "start no_script"
  let ?w1 = "start (no_script\<lparr>batch_script := [None, Some throttled]\<rparr>)"
  let ?ok = "WriteRecords scripted records_51 ''t'' ?w0"
  let ?fails = "WriteRecords scripted records_51 ''t'' ?w1"
  have c: "chunk_count records_51 = 3"
    by (simp add: records_51_def chunk_count_def)
  have chunks: "map (chunk records_51) [0..<3] =
     [replicate 25 item_a, replicate 25 item_b, [item_c]]"
    by (simp add: records_51_def chunk_def upt_conv_Cons)
  have calls: "map (\<lambda>k. BatchWriteItemCall (batch_input ''t'' (chunk records_51 k)) None) [0..<3] =
     [BatchWriteItemCall (batch_input ''t'' (replicate 25 item_a)) None,
      BatchWriteItemCall (batch_input ''t'' (replicate 25 item_b)) None,
      BatchWriteItemCall (batch_input ''t'' [item_c]) None]"
    by (simp add: records_51_def chunk_def upt_conv_Cons)
  have f1: "fst ?fails = Return (Some throttled)"
    by (simp add: WriteRecords_records_51_second_fails)
  have t: "calls_since ?w1 (snd ?fails) =
     [BatchWriteItemCall (batch_input ''t'' (replicate 25 item_a)) None,
      BatchWriteItemCall (batch_input ''t'' (replicate 25 item_b)) (Some throttled)]"
    unfolding WriteRecords_records_51_second_fails by (simp add: calls_since_def start_def)
  have ti: "map (items_of ''t'') (calls_since ?w1 (snd ?fails)) =
     [replicate 25 item_a, replicate 25 item_b]"
    unfolding t by (simp add: batch_input_def)
  have run1: "?fails = (fst ?fails, snd ?fails)" by simp
  from WriteRecords_in_order[OF run1] have p: "fst ?fails \<noteq> Panic"
    by blast
  have run: "?ok = (fst ?ok, snd ?ok)" by simp
  have f0: "fst ?ok = Return None"
    by (simp add: WriteRecords_records_51_ok)
  note inst = WriteRecords_in_order[OF run, unfolded c chunks calls]
  from inst f0 have u: "calls_since ?w0 (snd ?ok) =
       [BatchWriteItemCall (batch_input ''t'' (replicate 25 item_a)) None,
        BatchWriteItemCall (batch_input ''t'' (replicate 25 item_b)) None,
        BatchWriteItemCall (batch_input ''t'' [item_c]) None]"
    by blast
  from inst f0 have ui: "map (items_of ''t'') (calls_since ?w0 (snd ?ok)) =
       [replicate 25 item_a, replicate 25 item_b, [item_c]]"
    by blast
  from inst f0 have uc: "concat (map (items_of ''t'') (calls_since ?w0 (snd ?ok))) = records_51"
    by blast
  show ?thesis
    using p f1 t ti f0 u ui uc c by (intro conjI) assumption+
qed

subsection \<open>Number and size of the batch-write requests\<close>

text \<open>
  Claim C1, as the code has it. The calls of a run of \<^verbatim>\<open>WriteRecords\<close> extend the trace.
  For an input of 1 to 25 records there is exactly one call. When the run returns nil
  (no call failed), the number of calls is the ceiling of \<open>L / 25\<close> for an input of
  \<open>L\<close> records, every call is a batch write that succeeded, every call but the last
  carries exactly 25 records, and for \<open>L > 0\<close> the last carries \<open>L mod 25\<close>
  records, or 25 when 25 divides \<open>L\<close>.
\<close>

theorem WriteRecords_request_count:
  assumes run: "WriteRecords client data table w = (out, w')"
  shows "trace w' = trace w @ calls_since w w' \<and>
    (0 < length data \<and> length data \<le> 25 \<longrightarrow> length (calls_since w w') = 1) \<and>
    (out = Return None \<longrightarrow>
       int (length (calls_since w w')) = \<lceil>real (length data) / 25\<rceil> \<and>
       list_all (\<lambda>ev. \<exists>input. ev = BatchWriteItemCall input None) (calls_since w w') \<and>
       (\<forall>k. Suc k < length (calls_since w w') \<longrightarrow>
            length (items_of table (calls_since w w' ! k)) = 25) \<and>
       (0 < length data \<longrightarrow>
            length (items_of table (last (calls_since w w'))) =
              (if length data mod 25 = 0 then 25 else length data mod 25)))"
proof -
  let ?n = "chunk_count data"
  let ?call = "\<lambda>k. BatchWriteItemCall (batch_input table (chunk data k)) None"
  have one: "?n = 1" if "0 < length data" "length data \<le> 25"
  proof -
    have "1 * 25 \<le> length data + 24" using that by linarith
    then have "1 \<le> ?n" by (simp only: chunk_count_le)
    moreover have "\<not> 2 \<le> ?n" using that by (simp add: chunk_count_le)
    ultimately show ?thesis by linarith
  qed
  from WriteRecords_shape[OF run] show ?thesis
  proof (elim disjE conjE exE)
    assume out: "out = Return None" and t: "trace w' = trace w @ map ?call [0..<?n]"
    have cs: "calls_since w w' = map ?call [0..<?n]"
      by (rule calls_since_append[OF t])
    have len: "length (calls_since w w') = ?n" by (simp add: cs)
    have inner: "length (items_of table (calls_since w w' ! k)) = 25"
      if "Suc k < length (calls_since w w')" for k
    proof -
      from that have k: "Suc k < ?n" by (simp add: len)
      then have "calls_since w w' ! k = ?call k" by (simp add: cs)
      then show ?thesis by (simp add: batch_input_def length_chunk_inner[OF k])
    qed
    have final: "length (items_of table (last (calls_since w w'))) =
        (if length data mod 25 = 0 then 25 else length data mod 25)"
      if pos: "0 < length data"
    proof -
      from pos have "1 * 25 \<le> length data + 24" by linarith
      then have "1 \<le> ?n" by (simp only: chunk_count_le)
      then have n: "0 < ?n" by linarith
      then have "calls_since w w' \<noteq> []" using len by auto
      then have "last (calls_since w w') = calls_since w w' ! (?n - 1)"
        by (simp add: last_conv_nth len)
      also have "\<dots> = ?call (?n - 1)" using n by (simp add: cs)
      finally have "items_of table (last (calls_since w w')) = chunk data (?n - 1)"
        by (simp only: items_of_batch_input)
      then show ?thesis
        using length_chunk_last[OF pos] by simp
    qed
    have all: "list_all (\<lambda>ev. \<exists>input. ev = BatchWriteItemCall input None) (calls_since w w')"
      by (simp add: cs list_all_iff)
    show ?thesis
      using t cs len one inner final all chunk_count_ceiling[of data] by simp
  next
    fix e m
    assume out: "out = Return (Some e)" and m: "m < ?n"
      and t: "trace w' = trace w @ map ?call [0..<m] @
            [BatchWriteItemCall (batch_input table (chunk data m)) (Some e)]"
    have cs: "calls_since w w' = map ?call [0..<m] @
            [BatchWriteItemCall (batch_input table (chunk data m)) (Some e)]"
      by (rule calls_since_append[OF t])
    have "length (calls_since w w') = 1" if "0 < length data" "length data \<le> 25"
      using one[OF that] m by (simp add: cs)
    then show ?thesis using out t cs by simp
  qed
qed

theorem WriteRecords_request_count_witness:
  "length (calls_since (start no_script)
      (snd (WriteRecords scripted [item_c] ''t'' (start no_script)))) = 1 \<and>
   fst (WriteRecords scripted records_51 ''t'' (start no_script)) = Return None \<and>
   length (calls_since (start no_script)
      (snd (WriteRecords scripted records_51 ''t'' (start no_script)))) = 3 \<and>
   \<lceil>real (length records_51) / 25\<rceil> = 3 \<and>
   map (\<lambda>ev. length (items_of ''t'' ev))
     (calls_since (start no_script)
        (snd (WriteRecords scripted records_51 ''t'' (start no_script)))) = [25, 25, 1]"
proof -
  have a: "length (calls_since (start no_script)
      (snd (WriteRecords scripted [item_c] ''t'' (start no_script)))) = 1"
    using WriteRecords_request_count[OF WriteRecords_single]
    by (simp add: WriteRecords_single)
  have l: "length records_51 = 51" by (simp add: records_51_def)
  have c: "calls_since (start no_script)
        (snd (WriteRecords scripted records_51 ''t'' (start no_script))) =
     [BatchWriteItemCall (batch_input ''t'' (replicate 25 item_a)) None,
      BatchWriteItemCall (batch_input ''t'' (replicate 25 item_b)) None,
      BatchWriteItemCall (batch_input ''t'' [item_c]) None]"
    unfolding WriteRecords_records_51_ok by (simp add: calls_since_def start_def)
  have b: "int (length (calls_since (start no_script)
      (snd (WriteRecords scripted records_51 ''t'' (start no_script))))) =
        \<lceil>real (length records_51) / 25\<rceil>"
    using WriteRecords_request_count[OF WriteRecords_records_51_ok]
    by (simp add: WriteRecords_records_51_ok)
  show ?thesis
    using a b unfolding c by (simp add: WriteRecords_records_51_ok l batch_input_def)
qed

text \<open>
  The claim as stated fails in two places. For the empty input the loop bound is 0 and no
  request is issued, not one. For 26 records and a service that rejects the first batch,
  the loop returns after one request, not after the two that the ceiling gives.
\<close>

theorem WriteRecords_request_count_counterexample:
  "length (calls_since (start no_script)
      (snd (WriteRecords scripted [] ''t'' (start no_script)))) \<noteq> 1 \<and>
   int (length (calls_since (start (no_script\<lparr>batch_script := [Some throttled]\<rparr>))
      (snd (WriteRecords scripted records_26 ''t''
             (start (no_script\<lparr>batch_script := [Some throttled]\<rparr>)))))) \<noteq>
     \<lceil>real (length records_26) / 25\<rceil>"
proof -
  have a: "calls_since (start no_script)
      (snd (WriteRecords scripted [] ''t'' (start no_script))) = []"
    by (simp add: WriteRecords_issue chunk_inputs_def chunk_count_def calls_since_def)
  have b: "length (calls_since (start (no_script\<lparr>batch_script := [Some throttled]\<rparr>))
      (snd (WriteRecords scripted records_26 ''t''
             (start (no_script\<lparr>batch_script := [Some throttled]\<rparr>))))) = 1"
    unfolding WriteRecords_records_26_first_fails by (simp add: calls_since_def start_def)
  have l: "length records_26 = 26" by (simp add: records_26_def)
  show ?thesis unfolding a b l by simp
qed

section \<open>Properties of WriteRecord\<close>

text \<open>
  Claim C6. When the conversion \<^verbatim>\<open>data.Payload()\<close> fails, \<^verbatim>\<open>WriteRecord\<close> returns the
  conversion error and the world is unchanged: no call is made. When it succeeds with an
  item, exactly one call is added to the trace, a \<^verbatim>\<open>PutItem\<close> of that item on the table, and
  the error returned is the error of that call, nil included.
\<close>

theorem WriteRecord_errors:
  "(payload data = Inl err \<longrightarrow>
      WriteRecord client payload data table w = (Some err, w)) \<and>
   (payload data = Inr item \<longrightarrow>
      WriteRecord client payload data table w =
        (fst (PutItem client \<lparr>pi_Item = item, pi_TableName = Some table\<rparr> (backend w)),
         \<lparr>backend = snd (PutItem client \<lparr>pi_Item = item, pi_TableName = Some table\<rparr> (backend w)),
          trace = trace w @
            [PutItemCall \<lparr>pi_Item = item, pi_TableName = Some table\<rparr>
               (fst (PutItem client \<lparr>pi_Item = item, pi_TableName = Some table\<rparr>
                      (backend w)))]\<rparr>))"
  by (auto simp: WriteRecord_def call_PutItem_def Let_def split: prod.splits option.splits)

theorem WriteRecord_errors_witness:
  "WriteRecord scripted user_Payload (User []) ''users'' (start no_script) =
     (Some (Error ''user has no name''), start no_script) \<and>
   WriteRecord scripted user_Payload (User ''bob'') ''users''
       (start (no_script\<lparr>put_script := [Some throttled]\<rparr>)) =
     (Some throttled,
      \<lparr>backend = no_script,
       trace = [PutItemCall \<lparr>pi_Item = [''name'' \<mapsto> S ''bob''], pi_TableName = Some ''users''\<rparr>
                  (Some throttled)]\<rparr>)"
  using WriteRecord_errors[of user_Payload "User []" "Error ''user has no name''" scripted
      "''users''" "start no_script" Map.empty]
    WriteRecord_errors[of user_Payload "User ''bob''" throttled scripted
      "''users''" "start (no_script\<lparr>put_script := [Some throttled]\<rparr>)" "[''name'' \<mapsto> S ''bob'']"]
  by (simp add: scripted_def start_def no_script_def)

section \<open>Properties of QueryRecords and QueryRecordWithFilter\<close>

subsection \<open>The pagination loop\<close>

lemma call_Query_eq:
  "Query client input (backend w) = (r, s') \<Longrightarrow>
   call_Query client input w = (r, \<lparr>backend = s', trace = trace w @ [QueryCall input r]\<rparr>)"
  by (simp add: call_Query_def)

lemma cursor_requests_Cons:
  "qo_LastEvaluatedKey p = Some k \<Longrightarrow>
   cursor_requests input (p # ps) =
     input # cursor_requests (input\<lparr>q_ExclusiveStartKey := Some k\<rparr>) ps"
  by (simp add: cursor_requests_def)

lemma cursor_requests_nth:
  "k < length ps \<Longrightarrow>
   cursor_requests input ps ! Suc k =
     input\<lparr>q_ExclusiveStartKey := qo_LastEvaluatedKey (ps ! k)\<rparr>"
  by (simp add: cursor_requests_def)

lemma length_cursor_requests: "length (cursor_requests input ps) = Suc (length ps)"
  by (simp add: cursor_requests_def)

lemma query_loop_pages:
  assumes "pages_then client input (backend w) ps r" and "final_response r"
  shows "\<exists>w'. query_loop client input acc w = Some (returned acc ps r, w') \<and>
     trace w' = trace w @ map2 QueryCall (cursor_requests input ps) (map Inr ps @ [r])"
  using assms
proof (induction ps arbitrary: input acc w)
  case Nil
  then obtain s' where q: "Query client input (backend w) = (r, s')"
    by (auto simp: pages_then_def cursor_requests_def split: prod.splits)
  show ?case
  proof (cases r)
    case (Inl err)
    then show ?thesis
      by (subst query_loop.simps) (simp add: call_Query_eq[OF q] cursor_requests_def)
  next
    case (Inr p)
    with Nil.prems(2) have "qo_LastEvaluatedKey p = None" by simp
    with Inr show ?thesis
      by (subst query_loop.simps) (simp add: call_Query_eq[OF q] cursor_requests_def)
  qed
next
  case (Cons p ps)
  from Cons.prems(1) obtain k where k: "qo_LastEvaluatedKey p = Some k"
    by (auto simp: pages_then_def)
  let ?input' = "input\<lparr>q_ExclusiveStartKey := Some k\<rparr>"
  from Cons.prems(1) obtain s' where q: "Query client input (backend w) = (Inr p, s')"
    and rest: "feed (Query client) (cursor_requests ?input' ps) s' = map Inr ps @ [r]"
    by (auto simp: pages_then_def cursor_requests_Cons[OF k] split: prod.splits)
  let ?w1 = "\<lparr>backend = s', trace = trace w @ [QueryCall input (Inr p)]\<rparr>"
  have "pages_then client ?input' (backend ?w1) ps r"
    using rest Cons.prems(1) by (simp add: pages_then_def)
  from Cons.IH[OF this Cons.prems(2), of "acc @ qo_Items p"]
  obtain w' where
    run: "query_loop client ?input' (acc @ qo_Items p) ?w1 =
            Some (returned (acc @ qo_Items p) ps r, w')"
    and tr: "trace w' = trace ?w1 @
            map2 QueryCall (cursor_requests ?input' ps) (map Inr ps @ [r])"
    by blast
  have ret: "returned (acc @ qo_Items p) ps r = returned acc (p # ps) r"
    by (cases r) simp_all
  have "query_loop client input acc w = Some (returned acc (p # ps) r, w')"
    by (subst query_loop.simps) (simp add: call_Query_eq[OF q] k run ret)
  moreover have "trace w' = trace w @
      map2 QueryCall (cursor_requests input (p # ps)) (map Inr (p # ps) @ [r])"
    using tr by (simp add: cursor_requests_Cons[OF k])
  ultimately show ?case by blast
qed


lemma QueryRecords_built:
  "Build (WithKeyCondition (KeyEqual key (Value (GoString val)))
            (WithFilter condition NewBuilder)) = Inr expr \<Longrightarrow>
   QueryRecords Build client table index key val condition w =
     query_loop client (first_query expr (Some index) table) [] w"
  by (simp add: QueryRecords_def first_query_def)

lemma QueryRecordWithFilter_built:
  "Build (WithFilter filter' (WithKeyCondition keyCondition NewBuilder)) = Inr expr \<Longrightarrow>
   QueryRecordWithFilter Build client table keyCondition filter' w =
     query_loop client (first_query expr None table) [] w"
  by (simp add: QueryRecordWithFilter_def first_query_def)

lemma start_keys_cursor_requests:
  "length rs = Suc (length ps) \<Longrightarrow>
   q_ExclusiveStartKey input = None \<Longrightarrow>
   map start_key_of (map2 QueryCall (cursor_requests input ps) rs) =
     None # map qo_LastEvaluatedKey ps"
proof -
  assume len: "length rs = Suc (length ps)" and none: "q_ExclusiveStartKey input = None"
  then obtain r rs' where rs: "rs = r # rs'" and len': "length rs' = length ps"
    by (cases rs) auto
  have "map start_key_of
          (map2 QueryCall (map (\<lambda>p. input\<lparr>q_ExclusiveStartKey := qo_LastEvaluatedKey p\<rparr>) ps) rs') =
        map qo_LastEvaluatedKey ps"
    using len'
  proof (induction ps arbitrary: rs')
    case Nil
    then show ?case by simp
  next
    case (Cons p ps)
    then obtain r' rs'' where "rs' = r' # rs''" "length rs'' = length ps"
      by (cases rs') auto
    with Cons.IH[of rs''] show ?case by simp
  qed
  then show ?thesis using rs none by (simp add: cursor_requests_def)
qed

lemma query_loop_result:
  assumes pg: "pages_then client input (backend w) ps r" and fin: "final_response r"
    and none: "q_ExclusiveStartKey input = None"
  shows "\<exists>w'. query_loop client input [] w = Some (returned [] ps r, w') \<and>
     calls_since w w' = map2 QueryCall (cursor_requests input ps) (map Inr ps @ [r]) \<and>
     length (calls_since w w') = Suc (length ps) \<and>
     map start_key_of (calls_since w w') = None # map qo_LastEvaluatedKey ps"
proof -
  from query_loop_pages[OF pg fin, of "[]"] obtain w' where
    run: "query_loop client input [] w = Some (returned [] ps r, w')"
    and tr: "trace w' = trace w @ map2 QueryCall (cursor_requests input ps) (map Inr ps @ [r])"
    by blast
  have cs: "calls_since w w' = map2 QueryCall (cursor_requests input ps) (map Inr ps @ [r])"
    by (rule calls_since_append[OF tr])
  have len: "length (calls_since w w') = Suc (length ps)"
    by (simp add: cs length_cursor_requests)
  have keys: "map start_key_of (calls_since w w') = None # map qo_LastEvaluatedKey ps"
    unfolding cs by (rule start_keys_cursor_requests[OF _ none]) simp
  show ?thesis
    using run cs len keys by (intro exI[of _ w'] conjI) assumption+
qed

lemma first_query_start_key [simp]: "q_ExclusiveStartKey (first_query expr index table) = None"
  by (simp add: first_query_def)

subsection \<open>Runs on the scripted service\<close>

lemma strict_Build_QueryRecords:
  "strict_Build (WithKeyCondition (KeyEqual ''owner'' (Value (GoString ''bob'')))
      (WithFilter is_open NewBuilder)) = Inr built"
  by (simp add: strict_Build_def WithKeyCondition_def WithFilter_def NewBuilder_def
      is_open_def built_def)

lemma strict_Build_QueryRecordWithFilter:
  "strict_Build (WithFilter is_open
      (WithKeyCondition (KeyEqual ''owner'' (Value (GoString ''bob''))) NewBuilder)) = Inr built"
  by (simp add: strict_Build_def WithKeyCondition_def WithFilter_def NewBuilder_def
      is_open_def built_def)

lemma three_pages_served:
  "pages_then scripted input (backend three_pages) [page_1, page_2] (Inr page_3)"
  by (simp add: pages_then_def cursor_requests_def three_pages_def start_def no_script_def
      scripted_def page_1_def page_2_def)

lemma second_page_fails_served:
  "pages_then scripted input (backend second_page_fails) [page_1] (Inl throttled)"
  by (simp add: pages_then_def cursor_requests_def second_page_fails_def start_def no_script_def
      scripted_def page_1_def)

subsection \<open>All pages are returned, in order\<close>

text \<open>
  Claim C2, as the code has it. Let the key condition and the filter build to an
  expression, and let the service, paged through from the request made of that
  expression, return the pages \<open>ps\<close>, each with a last-evaluated key, and then a page
  \<open>p\<close> without one. Then \<^verbatim>\<open>QueryRecords\<close> and \<^verbatim>\<open>QueryRecordWithFilter\<close> return the items
  of \<open>ps\<close> and \<open>p\<close> concatenated in order, with a nil error. They make exactly one
  query call per page, the first without an exclusive start key, each later one with the
  last-evaluated key of the response before it and otherwise the same request.
\<close>

theorem query_pagination:
  "(Build (WithKeyCondition (KeyEqual key (Value (GoString val)))
             (WithFilter condition NewBuilder)) = Inr expr \<and>
    pages_then client (first_query expr (Some index) table) (backend w) ps (Inr p) \<and>
    qo_LastEvaluatedKey p = None \<longrightarrow>
    (\<exists>w'. QueryRecords Build client table index key val condition w =
            Some ((concat (map qo_Items (ps @ [p])), None), w') \<and>
          calls_since w w' =
            map2 QueryCall (cursor_requests (first_query expr (Some index) table) ps)
              (map Inr (ps @ [p])) \<and>
          length (calls_since w w') = length (ps @ [p]) \<and>
          map start_key_of (calls_since w w') = None # map qo_LastEvaluatedKey ps)) \<and>
   (Build (WithFilter filter' (WithKeyCondition keyCondition NewBuilder)) = Inr expr \<and>
    pages_then client (first_query expr None table) (backend w) ps (Inr p) \<and>
    qo_LastEvaluatedKey p = None \<longrightarrow>
    (\<exists>w'. QueryRecordWithFilter Build client table keyCondition filter' w =
            Some ((concat (map qo_Items (ps @ [p])), None), w') \<and>
          calls_since w w' =
            map2 QueryCall (cursor_requests (first_query expr None table) ps)
              (map Inr (ps @ [p])) \<and>
          length (calls_since w w') = length (ps @ [p]) \<and>
          map start_key_of (calls_since w w') = None # map qo_LastEvaluatedKey ps))"
proof (intro conjI impI; elim conjE)
  assume b: "Build (WithKeyCondition (KeyEqual key (Value (GoString val)))
             (WithFilter condition NewBuilder)) = Inr expr"
    and pg: "pages_then client (first_query expr (Some index) table) (backend w) ps (Inr p)"
    and fin: "qo_LastEvaluatedKey p = None"
  from fin have "final_response (Inr p)" by simp
  from query_loop_result[OF pg this] show
    "\<exists>w'. QueryRecords Build client table index key val condition w =
            Some ((concat (map qo_Items (ps @ [p])), None), w') \<and>
          calls_since w w' =
            map2 QueryCall (cursor_requests (first_query expr (Some index) table) ps)
              (map Inr (ps @ [p])) \<and>
          length (calls_since w w') = length (ps @ [p]) \<and>
          map start_key_of (calls_since w w') = None # map qo_LastEvaluatedKey ps"
    by (simp add: QueryRecords_built[where Build = Build, OF b])
next
  assume b: "Build (WithFilter filter' (WithKeyCondition keyCondition NewBuilder)) = Inr expr"
    and pg: "pages_then client (first_query expr None table) (backend w) ps (Inr p)"
    and fin: "qo_LastEvaluatedKey p = None"
  from fin have "final_response (Inr p)" by simp
  from query_loop_result[OF pg this] show
    "\<exists>w'. QueryRecordWithFilter Build client table keyCondition filter' w =
            Some ((concat (map qo_Items (ps @ [p])), None), w') \<and>
          calls_since w w' =
            map2 QueryCall (cursor_requests (first_query expr None table) ps)
              (map Inr (ps @ [p])) \<and>
          length (calls_since w w') = length (ps @ [p]) \<and>
          map start_key_of (calls_since w w') = None # map qo_LastEvaluatedKey ps"
    by (simp add: QueryRecordWithFilter_built[where Build = Build, OF b])
qed


theorem query_pagination_witness:
  "fst (the (QueryRecords strict_Build scripted ''tickets'' ''by-owner'' ''owner'' ''bob''
               is_open three_pages)) = ([item_a, item_b, item_c], None) \<and>
   map start_key_of (calls_since three_pages
     (snd (the (QueryRecords strict_Build scripted ''tickets'' ''by-owner'' ''owner'' ''bob''
               is_open three_pages)))) = [None, Some item_a, Some item_b] \<and>
   fst (the (QueryRecordWithFilter strict_Build scripted ''tickets''
               (KeyEqual ''owner'' (Value (GoString ''bob''))) is_open three_pages)) =
     ([item_a, item_b, item_c], None) \<and>
   map start_key_of (calls_since three_pages
     (snd (the (QueryRecordWithFilter strict_Build scripted ''tickets''
               (KeyEqual ''owner'' (Value (GoString ''bob''))) is_open three_pages)))) =
     [None, Some item_a, Some item_b]"
proof -
  have last: "qo_LastEvaluatedKey page_3 = None" by (simp add: page_3_def)
  have items: "concat (map qo_Items ([page_1, page_2] @ [page_3])) = [item_a, item_b, item_c]"
    by (simp add: page_1_def page_2_def page_3_def)
  have keys: "None # map qo_LastEvaluatedKey [page_1, page_2] = [None, Some item_a, Some item_b]"
    by (simp add: page_1_def page_2_def)
  note inst = query_pagination[where Build = strict_Build and client = scripted
      and key = "''owner''" and val = "''bob''" and condition = is_open and filter' = is_open
      and keyCondition = "KeyEqual ''owner'' (Value (GoString ''bob''))"
      and expr = built and table = "''tickets''" and index = "''by-owner''"
      and w = three_pages and ps = "[page_1, page_2]" and p = page_3, unfolded items keys]
  have a: "fst (the (QueryRecords strict_Build scripted ''tickets'' ''by-owner'' ''owner'' ''bob''
               is_open three_pages)) = ([item_a, item_b, item_c], None) \<and>
     map start_key_of (calls_since three_pages
       (snd (the (QueryRecords strict_Build scripted ''tickets'' ''by-owner'' ''owner'' ''bob''
               is_open three_pages)))) = [None, Some item_a, Some item_b]"
    using inst[THEN conjunct1, rule_format,
        OF conjI[OF strict_Build_QueryRecords conjI[OF three_pages_served last]]]
    by (elim exE conjE) simp
  have b: "fst (the (QueryRecordWithFilter strict_Build scripted ''tickets''
               (KeyEqual ''owner'' (Value (GoString ''bob''))) is_open three_pages)) =
       ([item_a, item_b, item_c], None) \<and>
     map start_key_of (calls_since three_pages
       (snd (the (QueryRecordWithFilter strict_Build scripted ''tickets''
               (KeyEqual ''owner'' (Value (GoString ''bob''))) is_open three_pages)))) =
       [None, Some item_a, Some item_b]"
    using inst[THEN conjunct2, rule_format,
        OF conjI[OF strict_Build_QueryRecordWithFilter conjI[OF three_pages_served last]]]
    by (elim exE conjE) simp
  from a b show ?thesis by simp
qed

text \<open>
  Without the condition on the builder the claim fails. The scripted service holds three
  pages of which only the last has no last-evaluated key, but with the zero-value filter
  \<^verbatim>\<open>expression.ConditionBuilder{}\<close> the SDK's \<^verbatim>\<open>Build\<close> fails, and both functions return the
  builder's error with a nil slice and make no query call: neither the concatenation of
  the three pages nor three requests.
\<close>

theorem query_pagination_counterexample:
  "pages_then scripted (first_query built (Some ''by-owner'') ''tickets'') (backend three_pages)
     [page_1, page_2] (Inr page_3) \<and>
   qo_LastEvaluatedKey page_3 = None \<and>
   QueryRecords strict_Build scripted ''tickets'' ''by-owner'' ''owner'' ''bob''
       UnsetCondition three_pages =
     Some (([], Some (Error ''unset parameter'')), three_pages) \<and>
   QueryRecordWithFilter strict_Build scripted ''tickets''
       (KeyEqual ''owner'' (Value (GoString ''bob''))) UnsetCondition three_pages =
     Some (([], Some (Error ''unset parameter'')), three_pages) \<and>
   calls_since three_pages three_pages = [] \<and>
   concat (map qo_Items ([page_1, page_2] @ [page_3])) = [item_a, item_b, item_c]"
proof -
  have q1: "QueryRecords strict_Build scripted ''tickets'' ''by-owner'' ''owner'' ''bob''
       UnsetCondition three_pages =
     Some (([], Some (Error ''unset parameter'')), three_pages)"
    by (simp add: QueryRecords_def strict_Build_def WithKeyCondition_def WithFilter_def
        NewBuilder_def)
  have q2: "QueryRecordWithFilter strict_Build scripted ''tickets''
       (KeyEqual ''owner'' (Value (GoString ''bob''))) UnsetCondition three_pages =
     Some (([], Some (Error ''unset parameter'')), three_pages)"
    by (simp add: QueryRecordWithFilter_def strict_Build_def WithKeyCondition_def WithFilter_def
        NewBuilder_def)
  have items: "concat (map qo_Items ([page_1, page_2] @ [page_3])) = [item_a, item_b, item_c]"
    by (simp add: page_1_def page_2_def page_3_def)
  have last: "qo_LastEvaluatedKey page_3 = None" by (simp add: page_3_def)
  have none: "calls_since three_pages three_pages = []" by (simp add: calls_since_def)
  from three_pages_served q1 q2 items last none show ?thesis by simp
qed

subsection \<open>A failing page discards the pages before it\<close>

text \<open>
  Claim C5. Let the service return the pages \<open>ps\<close>, each with a last-evaluated key, and
  then fail with \<open>err\<close>: the request number \<open>length ps + 1\<close> is the one that fails.
  Then both functions return \<open>err\<close> with a nil slice, not the items of \<open>ps\<close>, after
  exactly \<open>length ps + 1\<close> query calls.
\<close>

theorem query_page_failure:
  "(Build (WithKeyCondition (KeyEqual key (Value (GoString val)))
             (WithFilter condition NewBuilder)) = Inr expr \<and>
    pages_then client (first_query expr (Some index) table) (backend w) ps (Inl err) \<longrightarrow>
    (\<exists>w'. QueryRecords Build client table index key val condition w =
            Some (([], Some err), w') \<and>
          calls_since w w' =
            map2 QueryCall (cursor_requests (first_query expr (Some index) table) ps)
              (map Inr ps @ [Inl err]))) \<and>
   (Build (WithFilter filter' (WithKeyCondition keyCondition NewBuilder)) = Inr expr \<and>
    pages_then client (first_query expr None table) (backend w) ps (Inl err) \<longrightarrow>
    (\<exists>w'. QueryRecordWithFilter Build client table keyCondition filter' w =
            Some (([], Some err), w') \<and>
          calls_since w w' =
            map2 QueryCall (cursor_requests (first_query expr None table) ps)
              (map Inr ps @ [Inl err])))"
proof (intro conjI impI; elim conjE)
  assume b: "Build (WithKeyCondition (KeyEqual key (Value (GoString val)))
             (WithFilter condition NewBuilder)) = Inr expr"
    and pg: "pages_then client (first_query expr (Some index) table) (backend w) ps (Inl err)"
  have "final_response (Inl err)" by simp
  from query_loop_result[OF pg this] show
    "\<exists>w'. QueryRecords Build client table index key val condition w =
            Some (([], Some err), w') \<and>
          calls_since w w' =
            map2 QueryCall (cursor_requests (first_query expr (Some index) table) ps)
              (map Inr ps @ [Inl err])"
    by (auto simp: QueryRecords_built[where Build = Build, OF b])
next
  assume b: "Build (WithFilter filter' (WithKeyCondition keyCondition NewBuilder)) = Inr expr"
    and pg: "pages_then client (first_query expr None table) (backend w) ps (Inl err)"
  have "final_response (Inl err)" by simp
  from query_loop_result[OF pg this] show
    "\<exists>w'. QueryRecordWithFilter Build client table keyCondition filter' w =
            Some (([], Some err), w') \<and>
          calls_since w w' =
            map2 QueryCall (cursor_requests (first_query expr None table) ps)
              (map Inr ps @ [Inl err])"
    by (auto simp: QueryRecordWithFilter_built[where Build = Build, OF b])
qed

theorem query_page_failure_witness:
  "fst (the (QueryRecords strict_Build scripted ''tickets'' ''by-owner'' ''owner'' ''bob''
               is_open second_page_fails)) = ([], Some throttled) \<and>
   length (calls_since second_page_fails
     (snd (the (QueryRecords strict_Build scripted ''tickets'' ''by-owner'' ''owner'' ''bob''
               is_open second_page_fails)))) = 2 \<and>
   fst (the (QueryRecordWithFilter strict_Build scripted ''tickets''
               (KeyEqual ''owner'' (Value (GoString ''bob''))) is_open second_page_fails)) =
     ([], Some throttled) \<and>
   length (calls_since second_page_fails
     (snd (the (QueryRecordWithFilter strict_Build scripted ''tickets''
               (KeyEqual ''owner'' (Value (GoString ''bob''))) is_open second_page_fails)))) = 2"
proof -
  note inst = query_page_failure[where Build = strict_Build and client = scripted
      and key = "''owner''" and val = "''bob''" and condition = is_open and filter' = is_open
      and keyCondition = "KeyEqual ''owner'' (Value (GoString ''bob''))"
      and expr = built and table = "''tickets''" and index = "''by-owner''"
      and w = second_page_fails and ps = "[page_1]" and err = throttled]
  have a: "fst (the (QueryRecords strict_Build scripted ''tickets'' ''by-owner'' ''owner'' ''bob''
               is_open second_page_fails)) = ([], Some throttled) \<and>
     length (calls_since second_page_fails
       (snd (the (QueryRecords strict_Build scripted ''tickets'' ''by-owner'' ''owner'' ''bob''
               is_open second_page_fails)))) = 2"
    using inst[THEN conjunct1, rule_format,
        OF conjI[OF strict_Build_QueryRecords second_page_fails_served]]
    by (elim exE conjE) (simp add: cursor_requests_def)
  have b: "fst (the (QueryRecordWithFilter strict_Build scripted ''tickets''
               (KeyEqual ''owner'' (Value (GoString ''bob''))) is_open second_page_fails)) =
       ([], Some throttled) \<and>
     length (calls_since second_page_fails
       (snd (the (QueryRecordWithFilter strict_Build scripted ''tickets''
               (KeyEqual ''owner'' (Value (GoString ''bob''))) is_open second_page_fails)))) = 2"
    using inst[THEN conjunct2, rule_format,
        OF conjI[OF strict_Build_QueryRecordWithFilter second_page_fails_served]]
    by (elim exE conjE) (simp add: cursor_requests_def)
  from a b show ?thesis by simp
qed

subsection \<open>Termination\<close>

text \<open>
  Claim C8. Suppose that, whenever the expression builds, the service returns a page
  without last-evaluated key after the finitely many pages \<open>ps\<close>. Then both functions
  return (the result is not \<open>None\<close>), and they have made at most \<open>length ps + 1\<close>
  query calls.
\<close>

theorem query_terminates:
  "((\<forall>expr. Build (WithKeyCondition (KeyEqual key (Value (GoString val)))
                    (WithFilter condition NewBuilder)) = Inr expr \<longrightarrow>
       pages_then client (first_query expr (Some index) table) (backend w) ps (Inr p)) \<and>
    qo_LastEvaluatedKey p = None \<longrightarrow>
    (\<exists>res w'. QueryRecords Build client table index key val condition w = Some (res, w') \<and>
       length (calls_since w w') \<le> Suc (length ps))) \<and>
   ((\<forall>expr. Build (WithFilter filter' (WithKeyCondition keyCondition NewBuilder)) = Inr expr \<longrightarrow>
       pages_then client (first_query expr None table) (backend w) ps (Inr p)) \<and>
    qo_LastEvaluatedKey p = None \<longrightarrow>
    (\<exists>res w'. QueryRecordWithFilter Build client table keyCondition filter' w = Some (res, w') \<and>
       length (calls_since w w') \<le> Suc (length ps)))"
proof (intro conjI impI; elim conjE)
  let ?B = "Build (WithKeyCondition (KeyEqual key (Value (GoString val)))
                    (WithFilter condition NewBuilder))"
  assume pg: "\<forall>expr. ?B = Inr expr \<longrightarrow>
       pages_then client (first_query expr (Some index) table) (backend w) ps (Inr p)"
    and fin: "qo_LastEvaluatedKey p = None"
  show "\<exists>res w'. QueryRecords Build client table index key val condition w = Some (res, w') \<and>
       length (calls_since w w') \<le> Suc (length ps)"
  proof (cases ?B)
    case (Inl err)
    then have "QueryRecords Build client table index key val condition w =
        Some (([], Some err), w)"
      by (simp add: QueryRecords_def)
    moreover have "length (calls_since w w) \<le> Suc (length ps)"
      by (simp add: calls_since_def)
    ultimately show ?thesis by blast
  next
    case (Inr expr)
    with pg have "pages_then client (first_query expr (Some index) table) (backend w) ps (Inr p)"
      by blast
    moreover from fin have "final_response (Inr p)" by simp
    ultimately show ?thesis
      using query_loop_result[of client "first_query expr (Some index) table" w ps "Inr p"]
      by (auto simp: QueryRecords_built[where Build = Build, OF Inr])
  qed
next
  let ?B = "Build (WithFilter filter' (WithKeyCondition keyCondition NewBuilder))"
  assume pg: "\<forall>expr. ?B = Inr expr \<longrightarrow>
       pages_then client (first_query expr None table) (backend w) ps (Inr p)"
    and fin: "qo_LastEvaluatedKey p = None"
  show "\<exists>res w'. QueryRecordWithFilter Build client table keyCondition filter' w =
          Some (res, w') \<and>
       length (calls_since w w') \<le> Suc (length ps)"
  proof (cases ?B)
    case (Inl err)
    then have "QueryRecordWithFilter Build client table keyCondition filter' w =
        Some (([], Some err), w)"
      by (simp add: QueryRecordWithFilter_def)
    moreover have "length (calls_since w w) \<le> Suc (length ps)"
      by (simp add: calls_since_def)
    ultimately show ?thesis by blast
  next
    case (Inr expr)
    with pg have "pages_then client (first_query expr None table) (backend w) ps (Inr p)"
      by blast
    moreover from fin have "final_response (Inr p)" by simp
    ultimately show ?thesis
      using query_loop_result[of client "first_query expr None table" w ps "Inr p"]
      by (auto simp: QueryRecordWithFilter_built[where Build = Build, OF Inr])
  qed
qed

theorem query_terminates_witness:
  "(\<exists>res w'. QueryRecords strict_Build scripted ''tickets'' ''by-owner'' ''owner'' ''bob''
               is_open three_pages = Some (res, w') \<and>
        length (calls_since three_pages w') \<le> 3) \<and>
   (\<exists>res w'. QueryRecordWithFilter strict_Build scripted ''tickets''
               (KeyEqual ''owner'' (Value (GoString ''bob''))) is_open three_pages =
                 Some (res, w') \<and>
        length (calls_since three_pages w') \<le> 3)"
proof -
  have last: "qo_LastEvaluatedKey page_3 = None" by (simp add: page_3_def)
  have n: "Suc (length [page_1, page_2]) = 3" by simp
  note inst = query_terminates[where Build = strict_Build and client = scripted
      and key = "''owner''" and val = "''bob''" and condition = is_open and filter' = is_open
      and keyCondition = "KeyEqual ''owner'' (Value (GoString ''bob''))"
      and table = "''tickets''" and index = "''by-owner''"
      and w = three_pages and ps = "[page_1, page_2]" and p = page_3, unfolded n]
  have served: "\<forall>expr. P expr \<longrightarrow>
      pages_then scripted (first_query expr index ''tickets'') (backend three_pages)
        [page_1, page_2] (Inr page_3)" for P index
    using three_pages_served by blast
  show ?thesis
    using inst[THEN conjunct1, rule_format, OF conjI[OF served last]]
      inst[THEN conjunct2, rule_format, OF conjI[OF served last]]
    by (rule conjI)
qed

section \<open>Properties of AddNumber\<close>

text \<open>
  Claim C7, as the code has it. When the update \<^verbatim>\<open>Add(Name(name), Value(number))\<close> builds
  to an expression, \<^verbatim>\<open>AddNumber\<close> adds exactly one call to the trace: an \<^verbatim>\<open>UpdateItem\<close>
  whose update expression, names and values are those of that expression, with the given
  key and table. It returns the error of that call, nil included.
\<close>

theorem AddNumber_one_update:
  assumes "Build (WithUpdate (Add (Name name) (Value (GoInt64 number))) NewBuilder) = Inr expr"
  shows "AddNumber Build client table key name number w =
     (fst (UpdateItem client
             \<lparr>ui_ExpressionAttributeNames = e_Names expr,
              ui_ExpressionAttributeValues = e_Values expr,
              ui_Key = key, ui_TableName = Some table,
              ui_UpdateExpression = e_Update expr\<rparr> (backend w)),
      \<lparr>backend = snd (UpdateItem client
             \<lparr>ui_ExpressionAttributeNames = e_Names expr,
              ui_ExpressionAttributeValues = e_Values expr,
              ui_Key = key, ui_TableName = Some table,
              ui_UpdateExpression = e_Update expr\<rparr> (backend w)),
       trace = trace w @
         [UpdateItemCall
            \<lparr>ui_ExpressionAttributeNames = e_Names expr,
             ui_ExpressionAttributeValues = e_Values expr,
             ui_Key = key, ui_TableName = Some table,
             ui_UpdateExpression = e_Update expr\<rparr>
            (fst (UpdateItem client
             \<lparr>ui_ExpressionAttributeNames = e_Names expr,
              ui_ExpressionAttributeValues = e_Values expr,
              ui_Key = key, ui_TableName = Some table,
              ui_UpdateExpression = e_Update expr\<rparr> (backend w)))]\<rparr>)"
  using assms
  by (auto simp: AddNumber_def call_UpdateItem_def Let_def split: prod.splits option.splits)

lemma strict_Build_Add:
  "strict_Build (WithUpdate (Add (Name ''hits'') (Value (GoInt64 5))) NewBuilder) =
     Inr \<lparr>e_Names = [''#0'' \<mapsto> ''name''], e_Values = [('':0'') \<mapsto> NULL],
          e_KeyCondition = None, e_Filter = None, e_Update = Some ''update''\<rparr>"
  by (simp add: strict_Build_def WithUpdate_def NewBuilder_def)

theorem AddNumber_one_update_witness:
  "AddNumber strict_Build scripted ''counters'' item_a ''hits'' 5 (start no_script) =
     (None,
      \<lparr>backend = no_script,
       trace = [UpdateItemCall
                  \<lparr>ui_ExpressionAttributeNames = [''#0'' \<mapsto> ''name''],
                   ui_ExpressionAttributeValues = [('':0'') \<mapsto> NULL],
                   ui_Key = item_a, ui_TableName = Some ''counters'',
                   ui_UpdateExpression = Some ''update''\<rparr> None]\<rparr>)"
  using AddNumber_one_update[where Build = strict_Build and client = scripted
      and table = "''counters''" and key = item_a and w = "start no_script",
      OF strict_Build_Add]
  by (simp add: scripted_def start_def no_script_def)

text \<open>
  Without the condition the claim fails: the SDK's builder refuses an empty attribute
  name, and \<^verbatim>\<open>AddNumber\<close> then returns the builder's error without any call.
\<close>

theorem AddNumber_one_update_counterexample:
  "AddNumber strict_Build scripted ''counters'' item_a [] 5 (start no_script) =
     (Some (Error ''unset parameter''), start no_script) \<and>
   calls_since (start no_script)
     (snd (AddNumber strict_Build scripted ''counters'' item_a [] 5 (start no_script))) = []"
  by (simp add: AddNumber_def strict_Build_def WithUpdate_def NewBuilder_def calls_since_def)

section \<open>A failing expression builder\<close>

text \<open>
  Claim C10. When \<^verbatim>\<open>Build\<close> fails, \<^verbatim>\<open>QueryRecords\<close> and \<^verbatim>\<open>QueryRecordWithFilter\<close> return
  the builder's error with a nil slice, and \<^verbatim>\<open>AddNumber\<close> returns the builder's error; in
  each case the world is unchanged, so no call is made on the client.
\<close>

theorem Build_error_no_request:
  "(Build (WithKeyCondition (KeyEqual key (Value (GoString val)))
            (WithFilter condition NewBuilder)) = Inl err \<longrightarrow>
      QueryRecords Build client table index key val condition w = Some (([], Some err), w)) \<and>
   (Build (WithFilter filter' (WithKeyCondition keyCondition NewBuilder)) = Inl err \<longrightarrow>
      QueryRecordWithFilter Build client table keyCondition filter' w =
        Some (([], Some err), w)) \<and>
   (Build (WithUpdate (Add (Name name) (Value (GoInt64 number))) NewBuilder) = Inl err \<longrightarrow>
      AddNumber Build client table item name number w = (Some err, w))"
  by (simp add: QueryRecords_def QueryRecordWithFilter_def AddNumber_def)

theorem Build_error_no_request_witness:
  "QueryRecords strict_Build scripted ''t'' ''by-owner'' ''owner'' ''bob'' UnsetCondition
      (start no_script) = Some (([], Some (Error ''unset parameter'')), start no_script) \<and>
   QueryRecordWithFilter strict_Build scripted ''t'' UnsetKeyCondition UnsetCondition
      (start no_script) = Some (([], Some (Error ''unset parameter'')), start no_script) \<and>
   AddNumber strict_Build scripted ''t'' item_a [] 5 (start no_script) =
      (Some (Error ''unset parameter''), start no_script)"
  using Build_error_no_request[of strict_Build "''owner''" "''bob''" UnsetCondition
      "Error ''unset parameter''" scripted "''t''" "''by-owner''" "start no_script"
      UnsetCondition UnsetKeyCondition "[]" 5 item_a]
  by (simp add: strict_Build_def WithUpdate_def WithFilter_def WithKeyCondition_def NewBuilder_def)

section \<open>Properties of PrettyStructPrint\<close>

text \<open>
  Claim C9. \<^verbatim>\<open>PrettyStructPrint\<close> returns nothing but the console: an error of the
  marshaller is not handed to the caller. When marshalling fails the error's text is
  logged, once, and otherwise nothing is logged. In both cases standard output grows by
  the marshalled bytes and one newline, which is exactly one more line when the bytes
  hold no newline.
\<close>

theorem PrettyStructPrint_prints:
  assumes "Marshal data = (marshalData, err)"
  shows "PrettyStructPrint Marshal data io =
     \<lparr>stdout = stdout io @ marshalData @ [newline],
      logged = logged io @ (case err of None \<Rightarrow> [] | Some e \<Rightarrow> [Error_string e])\<rparr> \<and>
     (newline \<notin> set marshalData \<longrightarrow>
        length (filter (\<lambda>c. c = newline) (stdout (PrettyStructPrint Marshal data io))) =
          Suc (length (filter (\<lambda>c. c = newline) (stdout io))))"
  using assms
  by (cases io) (auto simp: PrettyStructPrint_def Let_def filter_empty_conv split: option.splits)

theorem PrettyStructPrint_prints_witness:
  "PrettyStructPrint sample_Marshal None console0 =
     \<lparr>stdout = [newline], logged = [''json: unsupported type'']\<rparr> \<and>
   PrettyStructPrint sample_Marshal (Some ''[1,2]'') console0 =
     \<lparr>stdout = ''[1,2]'' @ [newline], logged = []\<rparr>"
  using PrettyStructPrint_prints[of sample_Marshal None "[]" "Some (Error ''json: unsupported type'')" console0]
    PrettyStructPrint_prints[of sample_Marshal "Some ''[1,2]''" "''[1,2]''" None console0]
  by (simp add: console0_def)

end
